theory Spec2Isabelle
  imports Complex_Main "HOL-Library.AList"
begin

section \<open>Python values and exceptions\<close>

text \<open>
  The observability code works on dynamically typed values: the dictionaries that
  \<^verbatim>\<open>json.loads\<close> returns for a log line, with the \<^verbatim>\<open>datetime\<close> that the
  reader stores under \<^verbatim>\<open>parsed_timestamp\<close>. A dictionary is an association list in
  insertion order with unique keys. Numbers are exact rationals; where a
  statement depends on the rounding of Python floats, \<open>py_float\<close> applies it to them.
  The values NaN and Infinity are outside the model. A naive
  \<^verbatim>\<open>datetime\<close> is the number of microseconds since 0001-01-01T00:00:00 on its own
  wall clock; the order of datetimes is the order of these numbers.
\<close>

type_synonym datetime = int

datatype pyval =
    PNone
  | PBool bool
  | PNum rat
  | PStr string
  | PList "pyval list"
  | PDict "(string \<times> pyval) list"
  | PDatetime datetime

datatype error = AttributeError | TypeError | IndexError

definition bind_err :: "error + 'a \<Rightarrow> ('a \<Rightarrow> error + 'b) \<Rightarrow> error + 'b" where
  "bind_err m f = (case m of Inl e \<Rightarrow> Inl e | Inr v \<Rightarrow> f v)"

text \<open>\<^verbatim>\<open>d.get(k, default)\<close>: only a dictionary has the method.\<close>

fun py_get :: "pyval \<Rightarrow> string \<Rightarrow> pyval \<Rightarrow> error + pyval" where
  "py_get (PDict kvs) k d = Inr (case map_of kvs k of None \<Rightarrow> d | Some v \<Rightarrow> v)"
| "py_get _ k d = Inl AttributeError"

text \<open>The truth value of an object, as \<^verbatim>\<open>if x\<close> and \<^verbatim>\<open>not x\<close> take it.\<close>

fun py_truthy :: "pyval \<Rightarrow> bool" where
  "py_truthy PNone = False"
| "py_truthy (PBool b) = b"
| "py_truthy (PNum r) = (r \<noteq> 0)"
| "py_truthy (PStr s) = (s \<noteq> [])"
| "py_truthy (PList xs) = (xs \<noteq> [])"
| "py_truthy (PDict kvs) = (kvs \<noteq> [])"
| "py_truthy (PDatetime t) = True"

text \<open>
  The number an object stands for in a comparison with a number or in an addition to one:
  \<^verbatim>\<open>bool\<close> is a subclass of \<^verbatim>\<open>int\<close>; every other type raises TypeError.
\<close>

fun py_num :: "pyval \<Rightarrow> error + rat" where
  "py_num (PNum r) = Inr r"
| "py_num (PBool b) = Inr (if b then 1 else 0)"
| "py_num _ = Inl TypeError"

text \<open>A list comprehension \<^verbatim>\<open>[x for x in xs if p(x)]\<close> whose test may raise.\<close>

fun filter_err :: "('a \<Rightarrow> error + bool) \<Rightarrow> 'a list \<Rightarrow> error + 'a list" where
  "filter_err p [] = Inr []"
| "filter_err p (x # xs) =
     (case p x of
        Inl e \<Rightarrow> Inl e
      | Inr b \<Rightarrow>
          (case filter_err p xs of
             Inl e \<Rightarrow> Inl e
           | Inr ys \<Rightarrow> Inr (if b then x # ys else ys)))"

text \<open>A list comprehension \<^verbatim>\<open>[f(x) for x in xs]\<close> whose body may raise.\<close>

fun map_err :: "('a \<Rightarrow> error + 'b) \<Rightarrow> 'a list \<Rightarrow> error + 'b list" where
  "map_err f [] = Inr []"
| "map_err f (x # xs) =
     (case f x of
        Inl e \<Rightarrow> Inl e
      | Inr y \<Rightarrow>
          (case map_err f xs of
             Inl e \<Rightarrow> Inl e
           | Inr ys \<Rightarrow> Inr (y # ys)))"

section \<open>The aggregator: current metrics (monitoring/exporters.py)\<close>

text \<open>\<^verbatim>\<open>log.get('record', {}).get('extra', {})\<close>\<close>

definition get_extra :: "pyval \<Rightarrow> error + pyval" where
  "get_extra entry =
     bind_err (py_get entry ''record'' (PDict [])) (\<lambda>r. py_get r ''extra'' (PDict []))"

text \<open>\<^verbatim>\<open>log.get('record', {}).get('extra', {}).get('event_type') == t\<close>\<close>

definition has_event_type :: "string \<Rightarrow> pyval \<Rightarrow> error + bool" where
  "has_event_type t entry =
     bind_err (get_extra entry) (\<lambda>e.
     bind_err (py_get e ''event_type'' PNone) (\<lambda>v. Inr (v = PStr t)))"

text \<open>\<^verbatim>\<open>req.get('record', {}).get('extra', {}).get('status_code', 0)\<close>, as a number.\<close>

definition status_code :: "pyval \<Rightarrow> error + rat" where
  "status_code req =
     bind_err (get_extra req) (\<lambda>e.
     bind_err (py_get e ''status_code'' (PNum 0)) py_num)"

definition calculate_real_success_rate :: "pyval list \<Rightarrow> error + rat" where
  "calculate_real_success_rate http_requests =
     (if http_requests = [] then Inr 1
      else
        bind_err (filter_err (\<lambda>req. bind_err (status_code req) (\<lambda>s. Inr (s < 400)))
                    http_requests) (\<lambda>successful.
        Inr (of_nat (length successful) / of_nat (length http_requests))))"

text \<open>\<^verbatim>\<open>req.get('record', {}).get('extra', {}).get('duration_ms', 0)\<close>, as a number.\<close>

definition duration_ms :: "pyval \<Rightarrow> error + rat" where
  "duration_ms req =
     bind_err (get_extra req) (\<lambda>e.
     bind_err (py_get e ''duration_ms'' (PNum 0)) py_num)"

definition calculate_real_avg_response_time :: "pyval list \<Rightarrow> error + rat" where
  "calculate_real_avg_response_time http_requests =
     (if http_requests = [] then Inr 0
      else
        bind_err (map_err (\<lambda>req. bind_err (get_extra req) (\<lambda>e. py_get e ''duration_ms'' (PNum 0)))
                    http_requests) (\<lambda>durations.
        if durations \<noteq> []
        then bind_err (map_err py_num durations) (\<lambda>numbers.
               Inr (sum_list numbers / of_nat (length durations)))
        else Inr 0))"

text \<open>
  A set of user ids: \<^verbatim>\<open>set.add\<close> needs a hashable object, and \<^verbatim>\<open>True\<close> is the
  same set element as \<^verbatim>\<open>1\<close>.
\<close>

fun py_hashable :: "pyval \<Rightarrow> bool" where
  "py_hashable (PList xs) = False"
| "py_hashable (PDict kvs) = False"
| "py_hashable _ = True"

fun py_key :: "pyval \<Rightarrow> pyval" where
  "py_key (PBool b) = PNum (if b then 1 else 0)"
| "py_key v = v"

fun count_real_active_users_loop :: "pyval list \<Rightarrow> pyval list \<Rightarrow> error + pyval list" where
  "count_real_active_users_loop [] user_ids = Inr user_ids"
| "count_real_active_users_loop (entry # logs) user_ids =
     bind_err (get_extra entry) (\<lambda>e.
     bind_err (py_get e ''user_id'' PNone) (\<lambda>user_id.
       if py_truthy user_id then
         (if py_hashable user_id
          then count_real_active_users_loop logs (List.insert (py_key user_id) user_ids)
          else Inl TypeError)
       else count_real_active_users_loop logs user_ids))"

definition count_real_active_users :: "pyval list \<Rightarrow> error + nat" where
  "count_real_active_users logs =
     bind_err (count_real_active_users_loop logs []) (\<lambda>user_ids. Inr (length user_ids))"

definition calculate_real_error_rate :: "pyval list \<Rightarrow> string \<Rightarrow> error + rat" where
  "calculate_real_error_rate http_requests error_type =
     (if http_requests = [] then Inr 0
      else if error_type = ''4xx'' then
        bind_err (filter_err (\<lambda>req. bind_err (status_code req) (\<lambda>s. Inr (400 \<le> s \<and> s < 500)))
                    http_requests) (\<lambda>errors.
        Inr (of_nat (length errors) / of_nat (length http_requests)))
      else if error_type = ''5xx'' then
        bind_err (filter_err (\<lambda>req. bind_err (status_code req) (\<lambda>s. Inr (s \<ge> 500)))
                    http_requests) (\<lambda>errors.
        Inr (of_nat (length errors) / of_nat (length http_requests)))
      else Inr 0)"

text \<open>\<^verbatim>\<open>event.get('record', {}).get('extra', {}).get('event_name') == 'user_login_attempt'\<close>\<close>

definition is_login_attempt :: "pyval \<Rightarrow> error + bool" where
  "is_login_attempt event =
     bind_err (get_extra event) (\<lambda>e.
     bind_err (py_get e ''event_name'' PNone) (\<lambda>v. Inr (v = PStr ''user_login_attempt'')))"

text \<open>
  \<^verbatim>\<open>event.get('record', {}).get('extra', {}).get('context', {}).get('success', True)\<close>
\<close>

definition login_success :: "pyval \<Rightarrow> error + pyval" where
  "login_success event =
     bind_err (get_extra event) (\<lambda>e.
     bind_err (py_get e ''context'' (PDict [])) (\<lambda>c. py_get c ''success'' (PBool True)))"

definition calculate_real_failed_logins_rate :: "pyval list \<Rightarrow> error + rat" where
  "calculate_real_failed_logins_rate business_events =
     bind_err (filter_err is_login_attempt business_events) (\<lambda>login_events.
       if login_events = [] then Inr 0
       else
         bind_err (filter_err (\<lambda>event. bind_err (login_success event) (\<lambda>v. Inr (\<not> py_truthy v)))
                     login_events) (\<lambda>failed_logins.
         Inr (of_nat (length failed_logins) / of_nat (length login_events))))"

section \<open>The event log reader and \<^verbatim>\<open>export_current_metrics\<close>\<close>

text \<open>
  A line of the log file: blank, not decodable as JSON (\<^verbatim>\<open>json.loads\<close> raises
  JSONDecodeError), or the decoded value.
\<close>

datatype line = Blank | Undecodable | Decoded pyval

text \<open>\<^verbatim>\<open>log_entry['parsed_timestamp'] = log_timestamp\<close>\<close>

fun py_setitem :: "pyval \<Rightarrow> string \<Rightarrow> pyval \<Rightarrow> error + pyval" where
  "py_setitem (PDict kvs) k v = Inr (PDict (AList.update k v kvs))"
| "py_setitem _ k v = Inl TypeError"

text \<open>
  \<^verbatim>\<open>log_entry.get('record', {}).get('time', {}).get('timestamp')\<close>
\<close>

definition timestamp_raw :: "pyval \<Rightarrow> error + pyval" where
  "timestamp_raw log_entry =
     bind_err (py_get log_entry ''record'' (PDict [])) (\<lambda>r.
     bind_err (py_get r ''time'' (PDict [])) (\<lambda>t. py_get t ''timestamp'' PNone))"

text \<open>
  The loop over the lines of the file. \<^verbatim>\<open>datetime.fromtimestamp\<close>, which depends
  on the time zone of the process, is the parameter \<open>fromtimestamp\<close>; it gives
  \<open>None\<close> where the library raises for a number out of its range. Only
  JSONDecodeError is caught inside the loop: any other exception leaves the loop through
  the outer handler, and the records collected so far are returned.
\<close>

fun read_lines ::
  "(rat \<Rightarrow> datetime option) \<Rightarrow> datetime option \<Rightarrow> line list \<Rightarrow> pyval list \<Rightarrow> pyval list" where
  "read_lines fromtimestamp since [] logs = logs"
| "read_lines fromtimestamp since (Blank # f) logs = read_lines fromtimestamp since f logs"
| "read_lines fromtimestamp since (Undecodable # f) logs = read_lines fromtimestamp since f logs"
| "read_lines fromtimestamp since (Decoded log_entry # f) logs =
     (case timestamp_raw log_entry of
        Inl e \<Rightarrow> logs
      | Inr ts_raw \<Rightarrow>
          if py_truthy ts_raw then
            (case py_num ts_raw of
               Inl e \<Rightarrow> logs
             | Inr ts \<Rightarrow>
                 (case fromtimestamp ts of
                    None \<Rightarrow> logs
                  | Some log_timestamp \<Rightarrow>
                      if (case since of None \<Rightarrow> False | Some s \<Rightarrow> log_timestamp < s)
                      then read_lines fromtimestamp since f logs
                      else
                        (case py_setitem log_entry ''parsed_timestamp'' (PDatetime log_timestamp) of
                           Inl e \<Rightarrow> logs
                         | Inr log_entry' \<Rightarrow>
                             read_lines fromtimestamp since f (logs @ [log_entry']))))
          else read_lines fromtimestamp since f logs)"

text \<open>The file may be absent: then there are no records.\<close>

definition read_structured_logs ::
  "(rat \<Rightarrow> datetime option) \<Rightarrow> line list option \<Rightarrow> datetime option \<Rightarrow> pyval list" where
  "read_structured_logs fromtimestamp log_file since =
     (case log_file of
        None \<Rightarrow> []
      | Some f \<Rightarrow> read_lines fromtimestamp since f [])"

text \<open>\<^verbatim>\<open>timedelta(hours=n)\<close>, in microseconds.\<close>

definition timedelta_hours :: "int \<Rightarrow> int" where
  "timedelta_hours n = n * 3600000000"

text \<open>
  The mapping that \<^verbatim>\<open>export_current_metrics\<close> returns. \<open>current_timestamp\<close> holds
  the datetime whose \<^verbatim>\<open>isoformat()\<close> the code stores: the rendering is injective.
\<close>

record current_metrics =
  total_requests :: nat
  success_rate :: rat
  avg_response_time :: rat
  active_users :: nat
  error_rate_5xx :: rat
  error_rate_4xx :: rat
  failed_logins_rate :: rat
  current_timestamp :: datetime
  http_requests :: "pyval list"
  data_source :: string

text \<open>
  The two clock readings are parameters: \<open>now\<close> is \<^verbatim>\<open>datetime.now()\<close>, read first,
  and \<open>utcnow\<close> is \<^verbatim>\<open>datetime.utcnow()\<close>, read while the mapping is built. The
  result of \<^verbatim>\<open>_extract_prometheus_metrics\<close> is not used and its exceptions are
  swallowed, so it leaves no trace in the returned mapping. The entries of the dictionary
  display are evaluated in their written order, so the first one that raises decides the
  exception.
\<close>

definition export_current_metrics ::
  "(rat \<Rightarrow> datetime option) \<Rightarrow> datetime \<Rightarrow> datetime \<Rightarrow> line list option \<Rightarrow> error + current_metrics" where
  "export_current_metrics fromtimestamp now utcnow log_file =
     (let logs = read_structured_logs fromtimestamp log_file (Some (now - timedelta_hours 1)) in
      bind_err (filter_err (has_event_type ''http_request'') logs) (\<lambda>http_reqs.
      bind_err (filter_err (has_event_type ''business_event'') logs) (\<lambda>business_events.
      bind_err (filter_err (has_event_type ''error'') logs) (\<lambda>error_events.
      bind_err (calculate_real_success_rate http_reqs) (\<lambda>sr.
      bind_err (calculate_real_avg_response_time http_reqs) (\<lambda>avg.
      bind_err (count_real_active_users logs) (\<lambda>users.
      bind_err (calculate_real_error_rate http_reqs ''5xx'') (\<lambda>e5.
      bind_err (calculate_real_error_rate http_reqs ''4xx'') (\<lambda>e4.
      bind_err (calculate_real_failed_logins_rate business_events) (\<lambda>fl.
      Inr \<lparr> total_requests = length http_reqs,
            success_rate = sr,
            avg_response_time = avg,
            active_users = users,
            error_rate_5xx = e5,
            error_rate_4xx = e4,
            failed_logins_rate = fl,
            current_timestamp = utcnow,
            http_requests = logs,
            data_source = ''real_logs_and_prometheus'' \<rparr>))))))))))"

section \<open>Producers of log records (monitoring/logger.py, monitoring/middleware.py)\<close>

text \<open>\<^verbatim>\<open>MonitoringConfig.SLOW_REQUEST_THRESHOLD\<close>, in seconds.\<close>

definition SLOW_REQUEST_THRESHOLD :: rat where
  "SLOW_REQUEST_THRESHOLD = 1"

datatype level = ERROR | WARNING | INFO

text \<open>
  The severity that \<^verbatim>\<open>log_request\<close> chooses for a request with the given status
  code and duration in seconds.
\<close>

definition log_request_level :: "int \<Rightarrow> rat \<Rightarrow> level" where
  "log_request_level status duration =
     (if status \<ge> 500 then ERROR
      else if status \<ge> 400 then WARNING
      else if duration > SLOW_REQUEST_THRESHOLD then WARNING
      else INFO)"

text \<open>
  The fields that \<^verbatim>\<open>log_business_event\<close> binds to the record: the keyword arguments
  of the call become the dictionary \<open>context\<close>.
\<close>

definition log_business_event :: "string \<Rightarrow> pyval \<Rightarrow> (string \<times> pyval) list \<Rightarrow> pyval" where
  "log_business_event event_name user_id context =
     PDict [(''event_type'', PStr ''business_event''),
            (''event_name'', PStr event_name),
            (''user_id'', user_id),
            (''context'', PDict context)]"

text \<open>
  The record that \<^verbatim>\<open>BusinessEventTracker.track_user_login\<close> logs (its counter update
  in the registry is not part of the event log).
\<close>

definition track_user_login :: "bool \<Rightarrow> string \<Rightarrow> pyval" where
  "track_user_login success username =
     log_business_event ''user_login_attempt'' PNone
       [(''username'', PStr username), (''success'', PBool success)]"

text \<open>
  A line of the log file as the serialising sink writes it, reduced to the two parts
  that the reader looks at: the bound fields under \<open>record.extra\<close> and the epoch
  seconds under \<open>record.time.timestamp\<close>.
\<close>

definition log_line :: "pyval \<Rightarrow> rat \<Rightarrow> line" where
  "log_line extra ts =
     Decoded (PDict [(''record'',
       PDict [(''extra'', extra), (''time'', PDict [(''timestamp'', PNum ts)])])])"

text \<open>
  A sample process: its clock is UTC, so \<^verbatim>\<open>datetime.fromtimestamp\<close> adds the
  microseconds between 0001-01-01 and 1970-01-01; the sample timestamps are whole seconds.
\<close>

definition sample_fromtimestamp :: "rat \<Rightarrow> datetime option" where
  "sample_fromtimestamp ts = Some (\<lfloor>ts * 1000000\<rfloor> + 62135596800000000)"

text \<open>
  A sample log file: three requests with status codes 200, 404 and 500 and durations of
  100, 200 and 300 ms, a line that is not JSON, and two login attempts, one successful.
\<close>

definition sample_request :: "int \<Rightarrow> rat \<Rightarrow> pyval" where
  "sample_request status ms =
     PDict [(''event_type'', PStr ''http_request''),
            (''method'', PStr ''GET''),
            (''path'', PStr ''/books''),
            (''status_code'', PNum (of_int status)),
            (''duration_ms'', PNum ms),
            (''user_id'', PNone)]"

definition sample_log :: "line list" where
  "sample_log =
     [log_line (sample_request 200 100) 1700000100,
      log_line (sample_request 404 200) 1700000200,
      Undecodable,
      log_line (sample_request 500 300) 1700000300,
      log_line (track_user_login True ''ana'') 1700000400,
      Blank,
      log_line (track_user_login False ''ana'') 1700000500]"

text \<open>The clock reading of the sample call: 1700003000 seconds after the epoch.\<close>

definition sample_now :: datetime where
  "sample_now = 1700003000 * 1000000 + 62135596800000000"

section \<open>Reading the results\<close>

text \<open>
  The views below name what a theorem says about a record; they are not part of the code.
  \<open>returns r\<close>: the evaluation raises no exception.
\<close>

definition returns :: "error + 'a \<Rightarrow> bool" where
  "returns r = (case r of Inl e \<Rightarrow> False | Inr v \<Rightarrow> True)"

text \<open>
  None of the field reads that the aggregator makes on the entry raises: \<open>record\<close> and
  \<open>extra\<close> are dictionaries where present, \<open>status_code\<close> and \<open>duration_ms\<close> are
  numbers where present, \<open>context\<close> is a dictionary where present, and a \<open>user_id\<close>
  that counts is hashable.
\<close>

definition well_typed_entry :: "pyval \<Rightarrow> bool" where
  "well_typed_entry e \<longleftrightarrow>
     returns (status_code e) \<and> returns (duration_ms e) \<and> returns (login_success e) \<and>
     (case bind_err (get_extra e) (\<lambda>x. py_get x ''user_id'' PNone) of
        Inl err \<Rightarrow> False
      | Inr u \<Rightarrow> py_truthy u \<longrightarrow> py_hashable u)"

definition is_event :: "string \<Rightarrow> pyval \<Rightarrow> bool" where
  "is_event t e \<longleftrightarrow> has_event_type t e = Inr True"

definition status_of :: "pyval \<Rightarrow> rat" where
  "status_of req = (case status_code req of Inl e \<Rightarrow> 0 | Inr s \<Rightarrow> s)"

definition is_login :: "pyval \<Rightarrow> bool" where
  "is_login e \<longleftrightarrow> is_login_attempt e = Inr True"

text \<open>The value read for \<^verbatim>\<open>context.success\<close> is false for Python's \<^verbatim>\<open>not\<close>.\<close>

definition login_failed :: "pyval \<Rightarrow> bool" where
  "login_failed e \<longleftrightarrow> (case login_success e of Inl err \<Rightarrow> False | Inr v \<Rightarrow> \<not> py_truthy v)"

text \<open>The fraction of the elements of a list that satisfy a test, \<open>d\<close> for the empty list.\<close>

definition fraction :: "('a \<Rightarrow> bool) \<Rightarrow> rat \<Rightarrow> 'a list \<Rightarrow> rat" where
  "fraction P d xs = (if xs = [] then d else of_nat (length (filter P xs)) / of_nat (length xs))"

text \<open>The records that \<^verbatim>\<open>export_current_metrics\<close> reads: the trailing hour.\<close>

definition window_logs :: "(rat \<Rightarrow> datetime option) \<Rightarrow> datetime \<Rightarrow> line list option \<Rightarrow> pyval list" where
  "window_logs fromtimestamp now log_file =
     read_structured_logs fromtimestamp log_file (Some (now - timedelta_hours 1))"

section \<open>The aggregator: hourly timelines (monitoring/exporters.py)\<close>

text \<open>
  \<^verbatim>\<open>timestamp.replace(minute=0, second=0, microsecond=0)\<close>: on a datetime, the start
  of its hour. A string has a \<^verbatim>\<open>replace\<close> that takes no keywords (TypeError); the
  other types have none (AttributeError).
\<close>

fun replace_hour :: "pyval \<Rightarrow> error + datetime" where
  "replace_hour (PDatetime t) = Inr (t - t mod 3600000000)"
| "replace_hour (PStr s) = Inl TypeError"
| "replace_hour _ = Inl AttributeError"

text \<open>
  \<^verbatim>\<open>hourly_data = defaultdict(lambda: {'count': 0, 'total_duration': 0})\<close> as an
  association list in insertion order; the loop body adds one request to the entry of its
  hour, creating the entry at the end of the dictionary when the hour is new.
\<close>

type_synonym hourly_totals = "(datetime \<times> nat \<times> rat) list"

definition add_request :: "datetime \<Rightarrow> rat \<Rightarrow> hourly_totals \<Rightarrow> hourly_totals" where
  "add_request hour_key duration hourly_data =
     AList.update hour_key
       (case map_of hourly_data hour_key of
          None \<Rightarrow> (1, duration)
        | Some (count, total_duration) \<Rightarrow> (count + 1, total_duration + duration))
       hourly_data"

fun requests_timeline_loop :: "pyval list \<Rightarrow> hourly_totals \<Rightarrow> error + hourly_totals" where
  "requests_timeline_loop [] hourly_data = Inr hourly_data"
| "requests_timeline_loop (req # reqs) hourly_data =
     bind_err (py_get req ''parsed_timestamp'' PNone) (\<lambda>timestamp.
       if py_truthy timestamp then
         bind_err (replace_hour timestamp) (\<lambda>hour_key.
         bind_err (duration_ms req) (\<lambda>duration.
           requests_timeline_loop reqs (add_request hour_key duration hourly_data)))
       else requests_timeline_loop reqs hourly_data)"

text \<open>
  One point of the request timeline. \<open>hour\<close> holds the datetime whose
  \<^verbatim>\<open>isoformat()\<close> the code stores under \<open>timestamp\<close>.
\<close>

record requests_point =
  hour :: datetime
  requests_count :: nat
  hour_avg_response_time :: rat

text \<open>
  \<^verbatim>\<open>sorted(hourly_data.items())\<close> orders the pairs by their keys, which are distinct.
  The parameter \<open>hours\<close> is not used by the code.
\<close>

definition get_real_requests_timeline :: "pyval list \<Rightarrow> int \<Rightarrow> error + requests_point list" where
  "get_real_requests_timeline logs hours =
     bind_err (filter_err (has_event_type ''http_request'') logs) (\<lambda>http_reqs.
     bind_err (requests_timeline_loop http_reqs []) (\<lambda>hourly_data.
     Inr (map (\<lambda>(h, count, total_duration).
                 \<lparr> hour = h,
                   requests_count = count,
                   hour_avg_response_time =
                     (if count > 0 then total_duration / of_nat count else 0) \<rparr>)
              (sort_key fst hourly_data))))"

text \<open>
  The latency timeline keeps the \<open>duration_ms\<close> values of each hour as they are, without
  adding them: \<^verbatim>\<open>hourly_data = defaultdict(list)\<close>.
\<close>

type_synonym hourly_durations = "(datetime \<times> pyval list) list"

definition append_duration :: "datetime \<Rightarrow> pyval \<Rightarrow> hourly_durations \<Rightarrow> hourly_durations" where
  "append_duration hour_key duration hourly_data =
     AList.update hour_key
       (case map_of hourly_data hour_key of
          None \<Rightarrow> [duration]
        | Some durations \<Rightarrow> durations @ [duration])
       hourly_data"

fun response_times_loop :: "pyval list \<Rightarrow> hourly_durations \<Rightarrow> error + hourly_durations" where
  "response_times_loop [] hourly_data = Inr hourly_data"
| "response_times_loop (req # reqs) hourly_data =
     bind_err (py_get req ''parsed_timestamp'' PNone) (\<lambda>timestamp.
       if py_truthy timestamp then
         bind_err (replace_hour timestamp) (\<lambda>hour_key.
         bind_err (get_extra req) (\<lambda>e.
         bind_err (py_get e ''duration_ms'' (PNum 0)) (\<lambda>duration.
           response_times_loop reqs (append_duration hour_key duration hourly_data))))
       else response_times_loop reqs hourly_data)"

text \<open>
  \<^verbatim>\<open>durations.sort()\<close>: numbers (and booleans, which are numbers) are ordered by
  value, and the sort is stable. A list of at most one element needs no comparison.
  Comparing a number with a value of another type raises TypeError; lists of other
  mutually comparable values (all strings, say) are not modelled and count as TypeError.
\<close>

definition py_number :: "pyval \<Rightarrow> rat" where
  "py_number v = (case py_num v of Inl e \<Rightarrow> 0 | Inr r \<Rightarrow> r)"

definition py_sort :: "pyval list \<Rightarrow> error + pyval list" where
  "py_sort xs =
     (if length xs \<le> 1 then Inr xs
      else bind_err (map_err py_num xs) (\<lambda>keys. Inr (sort_key py_number xs)))"

text \<open>
  \<^verbatim>\<open>int(len(durations) * q)\<close> for the constants 0.5, 0.95 and 0.99 of the code. The
  product is a floating-point number in Python; for these three constants and any list
  that fits in memory its integer part is the integer part of the exact product, which is
  what the model computes.
\<close>

definition percentile_idx :: "nat \<Rightarrow> rat \<Rightarrow> nat" where
  "percentile_idx n q = nat \<lfloor>of_nat n * q\<rfloor>"

text \<open>\<^verbatim>\<open>durations[idx] if idx < len(durations) else 0\<close>\<close>

definition value_at :: "pyval list \<Rightarrow> nat \<Rightarrow> pyval" where
  "value_at durations idx = (if idx < length durations then durations ! idx else PNum 0)"

record latency_point =
  latency_hour :: datetime
  p50 :: pyval
  p95 :: pyval
  p99 :: pyval

fun response_times_points :: "hourly_durations \<Rightarrow> error + latency_point list" where
  "response_times_points [] = Inr []"
| "response_times_points ((h, durations) # rest) =
     (if durations \<noteq> [] then
        bind_err (py_sort durations) (\<lambda>sorted_durations.
        bind_err (response_times_points rest) (\<lambda>timeline.
        Inr (\<lparr> latency_hour = h,
               p50 = value_at sorted_durations (percentile_idx (length sorted_durations) (1 / 2)),
               p95 = value_at sorted_durations (percentile_idx (length sorted_durations) (95 / 100)),
               p99 = value_at sorted_durations (percentile_idx (length sorted_durations) (99 / 100)) \<rparr>
             # timeline)))
      else response_times_points rest)"

definition get_real_response_times_timeline :: "pyval list \<Rightarrow> int \<Rightarrow> error + latency_point list" where
  "get_real_response_times_timeline logs hours =
     bind_err (filter_err (has_event_type ''http_request'') logs) (\<lambda>http_reqs.
     bind_err (response_times_loop http_reqs []) (\<lambda>hourly_data.
     response_times_points (sort_key fst hourly_data)))"

text \<open>
  The hour bucket of a record: the start of the hour of its \<open>parsed_timestamp\<close>, if it
  has one.
\<close>

definition request_hour :: "pyval \<Rightarrow> datetime option" where
  "request_hour req =
     (case py_get req ''parsed_timestamp'' PNone of
        Inr (PDatetime t) \<Rightarrow> Some (t - t mod 3600000000)
      | _ \<Rightarrow> None)"

definition duration_of :: "pyval \<Rightarrow> rat" where
  "duration_of req = (case duration_ms req of Inl e \<Rightarrow> 0 | Inr d \<Rightarrow> d)"

text \<open>
  A well-typed record whose \<open>parsed_timestamp\<close> is absent or a datetime, as the reader
  leaves it.
\<close>

definition well_timed_entry :: "pyval \<Rightarrow> bool" where
  "well_timed_entry e \<longleftrightarrow>
     well_typed_entry e \<and>
     (case py_get e ''parsed_timestamp'' PNone of
        Inr PNone \<Rightarrow> True
      | Inr (PDatetime t) \<Rightarrow> True
      | _ \<Rightarrow> False)"

text \<open>The requests of one hour, in the order of the log.\<close>

definition bucket :: "datetime \<Rightarrow> pyval list \<Rightarrow> pyval list" where
  "bucket h reqs = filter (\<lambda>req. request_hour req = Some h) reqs"

text \<open>The entry of an hour after more requests of that hour have been added to it.\<close>

definition merge_totals :: "(nat \<times> rat) option \<Rightarrow> pyval list \<Rightarrow> (nat \<times> rat) option" where
  "merge_totals entry reqs =
     (if reqs = [] then entry
      else case entry of
        None \<Rightarrow> Some (length reqs, sum_list (map duration_of reqs))
      | Some (c, t) \<Rightarrow> Some (c + length reqs, t + sum_list (map duration_of reqs)))"

text \<open>
  Sample records as the reader returns them: a request with its duration in
  milliseconds and the datetime of its log line.
\<close>

definition sample_entry :: "rat \<Rightarrow> datetime \<Rightarrow> pyval" where
  "sample_entry ms t =
     PDict [(''record'', PDict [(''extra'', sample_request 200 ms)]),
            (''parsed_timestamp'', PDatetime t)]"

text \<open>
  Three requests, the first one in the hour after the other two: hours
  17733222 and 17733221 since the start of the calendar.
\<close>

definition sample_history :: "pyval list" where
  "sample_history =
     [sample_entry 50 (17733222 * 3600000000 + 5),
      sample_entry 100 (17733221 * 3600000000 + 900000000),
      sample_entry 200 (17733221 * 3600000000 + 1000000000)]"

text \<open>Five requests in one hour with durations 50, 10, 40, 20 and 30 ms.\<close>

definition sample_latencies :: "pyval list" where
  "sample_latencies =
     [sample_entry 50 (17733221 * 3600000000 + 1),
      sample_entry 10 (17733221 * 3600000000 + 2),
      sample_entry 40 (17733221 * 3600000000 + 3),
      sample_entry 20 (17733221 * 3600000000 + 4),
      sample_entry 30 (17733221 * 3600000000 + 5)]"

text \<open>The \<open>duration_ms\<close> value of a record as the latency timeline stores it.\<close>

definition duration_value :: "pyval \<Rightarrow> pyval" where
  "duration_value req =
     (case bind_err (get_extra req) (\<lambda>e. py_get e ''duration_ms'' (PNum 0)) of
        Inl e \<Rightarrow> PNone
      | Inr v \<Rightarrow> v)"

definition merge_durations :: "pyval list option \<Rightarrow> pyval list \<Rightarrow> pyval list option" where
  "merge_durations entry vs =
     (if vs = [] then entry
      else case entry of None \<Rightarrow> Some vs | Some ds \<Rightarrow> Some (ds @ vs))"

text \<open>The durations of one hour, sorted as the code sorts them.\<close>

definition sorted_durations :: "datetime \<Rightarrow> pyval list \<Rightarrow> pyval list" where
  "sorted_durations h reqs = sort_key py_number (map duration_value (bucket h reqs))"

section \<open>The categorised exposition (monitoring/metrics.py)\<close>




























section \<open>The metric registry (monitoring/metrics.py)\<close>

text \<open>
  The series of the registry are objects of the library \<^verbatim>\<open>prometheus_client\<close>,
  which is not part of the repository. A histogram child holds one count for each upper
  bound given at construction and one for the bound +Inf that the library adds, and the
  sum of the observed amounts.
\<close>

record histogram =
  bucket_counts :: "nat list"
  hist_sum :: rat

definition new_histogram :: "rat list \<Rightarrow> histogram" where
  "new_histogram upper_bounds =
     \<lparr> bucket_counts = replicate (Suc (length upper_bounds)) 0, hist_sum = 0 \<rparr>"

text \<open>
  The library's \<^verbatim>\<open>Histogram.observe(amount)\<close> adds the amount to the sum and
  increments the first bucket whose upper bound is not below the amount, the bucket of
  +Inf when there is no other. It makes no check on the sign of the amount.
\<close>

fun bucket_index :: "rat list \<Rightarrow> rat \<Rightarrow> nat" where
  "bucket_index [] amount = 0"
| "bucket_index (bound # upper_bounds) amount =
     (if amount \<le> bound then 0 else Suc (bucket_index upper_bounds amount))"

definition observe :: "rat list \<Rightarrow> histogram \<Rightarrow> rat \<Rightarrow> histogram" where
  "observe upper_bounds h amount =
     (let i = bucket_index upper_bounds amount
      in h\<lparr> hist_sum := hist_sum h + amount,
            bucket_counts := (bucket_counts h)[i := bucket_counts h ! i + 1] \<rparr>)"

text \<open>The number of observations of a histogram: the counts of all its buckets.\<close>

definition hist_count :: "histogram \<Rightarrow> nat" where
  "hist_count h = sum_list (bucket_counts h)"

text \<open>The buckets that \<^verbatim>\<open>_setup_metrics\<close> gives to the two histograms, in seconds.\<close>

definition http_buckets :: "rat list" where
  "http_buckets = [1 / 100, 5 / 100, 1 / 10, 1 / 4, 1 / 2, 1, 5 / 2, 5, 10]"

definition db_buckets :: "rat list" where
  "db_buckets = [1 / 1000, 5 / 1000, 1 / 100, 5 / 100, 1 / 10, 1 / 4, 1 / 2, 1]"

text \<open>
  The series that \<^verbatim>\<open>record_http_request\<close> and \<^verbatim>\<open>record_db_query\<close> write, by
  label values: \<^verbatim>\<open>labels(...)\<close> creates the child of unseen label values, so each
  family is a total function. The label \<open>status_code\<close> is the decimal string of an
  integer and is kept as the integer.
\<close>

record metrics_collector =
  http_requests_total :: "string \<times> string \<times> int \<Rightarrow> nat"
  http_request_duration :: "string \<times> string \<Rightarrow> histogram"
  db_queries_total :: "string \<times> string \<Rightarrow> nat"
  db_query_duration :: "string \<times> string \<Rightarrow> histogram"

definition new_metrics_collector :: metrics_collector where
  "new_metrics_collector =
     \<lparr> http_requests_total = (\<lambda>labels. 0),
       http_request_duration = (\<lambda>labels. new_histogram http_buckets),
       db_queries_total = (\<lambda>labels. 0),
       db_query_duration = (\<lambda>labels. new_histogram db_buckets) \<rparr>"

definition record_http_request ::
  "metrics_collector \<Rightarrow> string \<Rightarrow> string \<Rightarrow> int \<Rightarrow> rat \<Rightarrow> metrics_collector" where
  "record_http_request self method endpoint status duration =
     (let self' = self\<lparr> http_requests_total :=
            (http_requests_total self)((method, endpoint, status) :=
               http_requests_total self (method, endpoint, status) + 1) \<rparr>
      in self'\<lparr> http_request_duration :=
            (http_request_duration self')((method, endpoint) :=
               observe http_buckets (http_request_duration self' (method, endpoint)) duration) \<rparr>)"

definition record_db_query ::
  "metrics_collector \<Rightarrow> string \<Rightarrow> string \<Rightarrow> rat \<Rightarrow> metrics_collector" where
  "record_db_query self table operation duration =
     (let self' = self\<lparr> db_queries_total :=
            (db_queries_total self)((table, operation) :=
               db_queries_total self (table, operation) + 1) \<rparr>
      in self'\<lparr> db_query_duration :=
            (db_query_duration self')((table, operation) :=
               observe db_buckets (db_query_duration self' (table, operation)) duration) \<rparr>)"

section \<open>More producers and samples\<close>

text \<open>The record that \<^verbatim>\<open>BusinessEventTracker.track_ml_prediction\<close> logs.\<close>

definition track_ml_prediction :: "bool \<Rightarrow> pyval \<Rightarrow> pyval" where
  "track_ml_prediction recommended user_id =
     log_business_event ''ml_prediction_made'' user_id [(''recommended'', PBool recommended)]"

text \<open>
  A sample log with a business event that is not a login attempt between two login
  attempts, the second one failed, and one request.
\<close>

definition sample_login_log :: "line list" where
  "sample_login_log =
     [log_line (track_user_login True ''ana'') 1700000100,
      log_line (track_ml_prediction False PNone) 1700000200,
      log_line (track_user_login False ''ana'') 1700000300,
      log_line (sample_request 200 100) 1700000400]"

text \<open>A sample log of six requests: one with status 200, four with 404, one with 500.\<close>

definition sample_six_log :: "line list" where
  "sample_six_log =
     [log_line (sample_request 200 100) 1700000100,
      log_line (sample_request 404 100) 1700000200,
      log_line (sample_request 404 100) 1700000300,
      log_line (sample_request 404 100) 1700000400,
      log_line (sample_request 404 100) 1700000500,
      log_line (sample_request 500 100) 1700000600]"

section \<open>The floats that the rates are\<close>

text \<open>
  The rates of the model are exact quotients. In Python the quotient of two integers is
  the double-precision float nearest to the exact quotient, with ties to the even
  significand, and the sum of two floats is the float nearest to their exact sum.
  \<open>py_float\<close> rounds a rational to that float: the value is scaled by powers of two
  until its integer part has 53 bits, rounded to an integer, and scaled back. At most
  1074 doublings are made, which gives the subnormal numbers their fixed spacing; numbers
  beyond the largest float are outside the model.
\<close>

fun scale_up :: "nat \<Rightarrow> rat \<Rightarrow> nat \<Rightarrow> rat \<times> nat" where
  "scale_up 0 x k = (x, k)"
| "scale_up (Suc n) x k =
     (if x < 4503599627370496 then scale_up n (2 * x) (Suc k) else (x, k))"

fun scale_down :: "nat \<Rightarrow> rat \<Rightarrow> nat \<Rightarrow> rat \<times> nat" where
  "scale_down 0 x k = (x, k)"
| "scale_down (Suc n) x k =
     (if 9007199254740992 \<le> x then scale_down n (x / 2) (Suc k) else (x, k))"

definition round_half_even :: "rat \<Rightarrow> int" where
  "round_half_even y =
     (let f = \<lfloor>y\<rfloor>; r = y - of_int f
      in if r < 1 / 2 then f
         else if 1 / 2 < r then f + 1
         else if even f then f else f + 1)"

definition py_float_pos :: "rat \<Rightarrow> rat" where
  "py_float_pos x =
     (if x < 4503599627370496 then
        (case scale_up 1074 x 0 of (y, k) \<Rightarrow> of_int (round_half_even y) / 2 ^ k)
      else
        (case scale_down 971 x 0 of (y, k) \<Rightarrow> of_int (round_half_even y) * 2 ^ k))"

definition py_float :: "rat \<Rightarrow> rat" where
  "py_float x = (if x = 0 then 0 else if x < 0 then - py_float_pos (- x) else py_float_pos x)"

definition py_float_add :: "rat \<Rightarrow> rat \<Rightarrow> rat" where
  "py_float_add x y = py_float (x + y)"

text \<open>
  The Python expression \<^verbatim>\<open>success_rate + error_rate_4xx + error_rate_5xx\<close> on the
  floats of a returned mapping.
\<close>

definition float_rate_sum :: "current_metrics \<Rightarrow> rat" where
  "float_rate_sum m =
     py_float_add
       (py_float_add (py_float (success_rate m)) (py_float (error_rate_4xx m)))
       (py_float (error_rate_5xx m))"

section \<open>What the reader returns\<close>

text \<open>
  A line that does not end the reading: a blank line, a line that is not JSON, or a
  JSON object whose \<open>record.time.timestamp\<close> is either false for Python or a number
  that \<^verbatim>\<open>datetime.fromtimestamp\<close> accepts.
\<close>

definition readable_line :: "(rat \<Rightarrow> datetime option) \<Rightarrow> line \<Rightarrow> bool" where
  "readable_line fromtimestamp l =
     (case l of
        Decoded e \<Rightarrow>
          (case timestamp_raw e of
             Inl err \<Rightarrow> False
           | Inr v \<Rightarrow>
               if py_truthy v
               then (case py_num v of Inl err \<Rightarrow> False | Inr ts \<Rightarrow> fromtimestamp ts \<noteq> None)
               else True)
      | _ \<Rightarrow> True)"

text \<open>The datetime of the record of a line, if the line holds a record with a timestamp.\<close>

definition line_time :: "(rat \<Rightarrow> datetime option) \<Rightarrow> line \<Rightarrow> datetime option" where
  "line_time fromtimestamp l =
     (case l of
        Decoded e \<Rightarrow>
          (case timestamp_raw e of
             Inl err \<Rightarrow> None
           | Inr v \<Rightarrow>
               if py_truthy v
               then (case py_num v of Inl err \<Rightarrow> None | Inr ts \<Rightarrow> fromtimestamp ts)
               else None)
      | _ \<Rightarrow> None)"

text \<open>The record of a line with its datetime stored under \<open>parsed_timestamp\<close>.\<close>

definition stamped :: "line \<Rightarrow> datetime \<Rightarrow> pyval" where
  "stamped l t =
     (case l of
        Decoded (PDict kvs) \<Rightarrow> PDict (AList.update ''parsed_timestamp'' (PDatetime t) kvs)
      | _ \<Rightarrow> PNone)"

text \<open>
  The records of the given lines whose datetime is not before \<open>since\<close>, of whatever
  event type, in the order of the lines.
\<close>

definition window_records :: "(rat \<Rightarrow> datetime option) \<Rightarrow> datetime \<Rightarrow> line list \<Rightarrow> pyval list" where
  "window_records fromtimestamp since lines =
     List.map_filter
       (\<lambda>l. case line_time fromtimestamp l of
              None \<Rightarrow> None
            | Some t \<Rightarrow> if since \<le> t then Some (stamped l t) else None)
       lines"

section \<open>Basic facts about the model\<close>

lemma bind_err_Inr [simp]: "bind_err (Inr v) f = f v"
  by (simp add: bind_err_def)

lemma bind_err_Inl [simp]: "bind_err (Inl e) f = Inl e"
  by (simp add: bind_err_def)

lemma returnsE: "returns r \<Longrightarrow> \<exists>v. r = Inr v"
  by (cases r) (simp_all add: returns_def)

lemma filter_err_total:
  "(\<And>x. x \<in> set xs \<Longrightarrow> \<exists>b. p x = Inr b) \<Longrightarrow> filter_err p xs = Inr (filter (\<lambda>x. p x = Inr True) xs)"
proof (induction xs)
  case Nil
  then show ?case by simp
next
  case (Cons x xs)
  then obtain b where b: "p x = Inr b" by (meson list.set_intros(1))
  have "filter_err p xs = Inr (filter (\<lambda>x. p x = Inr True) xs)"
    using Cons by simp
  with b show ?case by simp
qed

lemma map_err_total:
  "(\<And>x. x \<in> set xs \<Longrightarrow> \<exists>y. f x = Inr y) \<Longrightarrow> \<exists>ys. map_err f xs = Inr ys \<and> length ys = length xs"
proof (induction xs)
  case Nil
  then show ?case by simp
next
  case (Cons x xs)
  then obtain y where y: "f x = Inr y" by (meson list.set_intros(1))
  obtain ys where "map_err f xs = Inr ys" "length ys = length xs"
    using Cons by auto
  with y show ?case by simp
qed

lemma map_err_map:
  "(\<And>x. x \<in> set xs \<Longrightarrow> f x = Inr (g x)) \<Longrightarrow> map_err f xs = Inr (map g xs)"
  by (induction xs) simp_all

section \<open>Well-typed records\<close>

lemma well_typed_extra:
  assumes "well_typed_entry e"
  shows "\<exists>kvs. get_extra e = Inr (PDict kvs)"
proof -
  from assms have "returns (status_code e)" by (simp add: well_typed_entry_def)
  then obtain s where s: "status_code e = Inr s" using returnsE by blast
  then obtain x where x: "get_extra e = Inr x"
    unfolding status_code_def by (cases "get_extra e") simp_all
  with s have "bind_err (py_get x ''status_code'' (PNum 0)) py_num = Inr s"
    by (simp add: status_code_def)
  then have "\<exists>kvs. x = PDict kvs"
    by (cases x) simp_all
  with x show ?thesis by blast
qed

lemma well_typed_event_type:
  assumes "well_typed_entry e"
  shows "\<exists>b. has_event_type t e = Inr b"
  using well_typed_extra [OF assms] by (auto simp: has_event_type_def)

lemma well_typed_login_attempt:
  assumes "well_typed_entry e"
  shows "\<exists>b. is_login_attempt e = Inr b"
  using well_typed_extra [OF assms] by (auto simp: is_login_attempt_def)

lemma well_typed_status:
  assumes "well_typed_entry e"
  shows "status_code e = Inr (status_of e)"
proof -
  from assms have "returns (status_code e)" by (simp add: well_typed_entry_def)
  then obtain s where "status_code e = Inr s" using returnsE by blast
  then show ?thesis by (simp add: status_of_def)
qed

lemma filter_events:
  assumes "\<forall>e\<in>set logs. well_typed_entry e"
  shows "filter_err (has_event_type t) logs = Inr (filter (is_event t) logs)"
  unfolding is_event_def
  by (rule filter_err_total) (use assms well_typed_event_type in blast)

lemma well_typed_duration:
  assumes "well_typed_entry e"
  shows "\<exists>d. duration_ms e = Inr d"
proof -
  from assms have "returns (duration_ms e)" by (simp add: well_typed_entry_def)
  then show ?thesis by (rule returnsE)
qed

lemma well_typed_login_success:
  assumes "well_typed_entry e"
  shows "\<exists>v. login_success e = Inr v"
proof -
  from assms have "returns (login_success e)" by (simp add: well_typed_entry_def)
  then show ?thesis by (rule returnsE)
qed

lemma well_typed_duration_value:
  assumes "well_typed_entry e"
  shows "bind_err (get_extra e) (\<lambda>x. py_get x ''duration_ms'' (PNum 0)) = Inr (duration_value e)"
    and "\<exists>d. py_num (duration_value e) = Inr d"
proof -
  obtain d where d: "duration_ms e = Inr d"
    using well_typed_duration [OF assms] by blast
  obtain kvs where x: "get_extra e = Inr (PDict kvs)"
    using well_typed_extra [OF assms] by blast
  show "bind_err (get_extra e) (\<lambda>x. py_get x ''duration_ms'' (PNum 0)) = Inr (duration_value e)"
    using x by (simp add: duration_value_def)
  show "\<exists>d. py_num (duration_value e) = Inr d"
    using d x by (simp add: duration_ms_def duration_value_def)
qed

lemma well_typed_duration_of:
  assumes "well_typed_entry e"
  shows "duration_ms e = Inr (duration_of e)"
  using well_typed_duration [OF assms] by (auto simp: duration_of_def)

section \<open>The fields of the current metrics\<close>

lemma success_rate_well_typed:
  assumes "\<forall>e\<in>set reqs. well_typed_entry e"
  shows "calculate_real_success_rate reqs = Inr (fraction (\<lambda>r. status_of r < 400) 1 reqs)"
proof -
  let ?p = "\<lambda>req. bind_err (status_code req) (\<lambda>s. Inr (s < 400))"
  have p: "?p x = Inr (status_of x < 400)" if "x \<in> set reqs" for x
    using that assms well_typed_status by simp
  then have "filter_err ?p reqs = Inr (filter (\<lambda>x. ?p x = Inr True) reqs)"
    by (intro filter_err_total) blast
  moreover have "filter (\<lambda>x. ?p x = Inr True) reqs = filter (\<lambda>r. status_of r < 400) reqs"
    by (rule filter_cong) (simp_all add: p)
  ultimately show ?thesis
    by (simp add: calculate_real_success_rate_def fraction_def)
qed

lemma error_rate_4xx_well_typed:
  assumes "\<forall>e\<in>set reqs. well_typed_entry e"
  shows "calculate_real_error_rate reqs ''4xx'' =
         Inr (fraction (\<lambda>r. 400 \<le> status_of r \<and> status_of r < 500) 0 reqs)"
proof -
  let ?p = "\<lambda>req. bind_err (status_code req) (\<lambda>s. Inr (400 \<le> s \<and> s < 500))"
  have p: "?p x = Inr (400 \<le> status_of x \<and> status_of x < 500)" if "x \<in> set reqs" for x
    using that assms well_typed_status by simp
  then have "filter_err ?p reqs = Inr (filter (\<lambda>x. ?p x = Inr True) reqs)"
    by (intro filter_err_total) blast
  moreover have "filter (\<lambda>x. ?p x = Inr True) reqs =
                 filter (\<lambda>r. 400 \<le> status_of r \<and> status_of r < 500) reqs"
    by (rule filter_cong) (simp_all add: p)
  ultimately show ?thesis
    by (simp add: calculate_real_error_rate_def fraction_def)
qed

lemma error_rate_5xx_well_typed:
  assumes "\<forall>e\<in>set reqs. well_typed_entry e"
  shows "calculate_real_error_rate reqs ''5xx'' = Inr (fraction (\<lambda>r. 500 \<le> status_of r) 0 reqs)"
proof -
  let ?p = "\<lambda>req. bind_err (status_code req) (\<lambda>s. Inr (s \<ge> 500))"
  have p: "?p x = Inr (500 \<le> status_of x)" if "x \<in> set reqs" for x
    using that assms well_typed_status by simp
  then have "filter_err ?p reqs = Inr (filter (\<lambda>x. ?p x = Inr True) reqs)"
    by (intro filter_err_total) blast
  moreover have "filter (\<lambda>x. ?p x = Inr True) reqs = filter (\<lambda>r. 500 \<le> status_of r) reqs"
    by (rule filter_cong) (simp_all add: p)
  ultimately show ?thesis
    by (simp add: calculate_real_error_rate_def fraction_def)
qed

lemma avg_response_time_well_typed:
  assumes "\<forall>e\<in>set reqs. well_typed_entry e"
  shows "\<exists>avg. calculate_real_avg_response_time reqs = Inr avg"
proof -
  have "bind_err (get_extra x) (\<lambda>e. py_get e ''duration_ms'' (PNum 0)) = Inr (duration_value x)"
    if "x \<in> set reqs" for x
    using that assms well_typed_duration_value(1) by blast
  then have 1: "map_err (\<lambda>req. bind_err (get_extra req) (\<lambda>e. py_get e ''duration_ms'' (PNum 0))) reqs
                = Inr (map duration_value reqs)"
    by (intro map_err_map)
  have "\<exists>d. py_num v = Inr d" if "v \<in> set (map duration_value reqs)" for v
    using that assms well_typed_duration_value(2) by auto
  then obtain ns where 2: "map_err py_num (map duration_value reqs) = Inr ns"
    using map_err_total [of "map duration_value reqs" py_num] by blast
  show ?thesis
    by (simp add: calculate_real_avg_response_time_def 1 2)
qed

lemma active_users_loop_well_typed:
  assumes "\<forall>e\<in>set logs. well_typed_entry e"
  shows "\<exists>ids. count_real_active_users_loop logs acc = Inr ids"
  using assms
proof (induction logs arbitrary: acc)
  case Nil
  then show ?case by simp
next
  case (Cons e logs)
  then have wt: "well_typed_entry e" by simp
  then obtain kvs where x: "get_extra e = Inr (PDict kvs)"
    using well_typed_extra by blast
  define u where "u = (case map_of kvs ''user_id'' of None \<Rightarrow> PNone | Some v \<Rightarrow> v)"
  have h: "py_truthy u \<longrightarrow> py_hashable u"
    using wt x unfolding well_typed_entry_def u_def by simp
  have ih: "\<exists>ids. count_real_active_users_loop logs acc' = Inr ids" for acc'
    using Cons by simp
  show ?case
    using x h ih by (simp add: u_def [symmetric])
qed

lemma active_users_well_typed:
  assumes "\<forall>e\<in>set logs. well_typed_entry e"
  shows "\<exists>n. count_real_active_users logs = Inr n"
  using active_users_loop_well_typed [OF assms, of "[]"]
  by (auto simp: count_real_active_users_def)

lemma failed_logins_rate_well_typed:
  assumes "\<forall>e\<in>set evs. well_typed_entry e"
  shows "calculate_real_failed_logins_rate evs = Inr (fraction login_failed 0 (filter is_login evs))"
proof -
  let ?q = "\<lambda>event. bind_err (login_success event) (\<lambda>v. Inr (\<not> py_truthy v))"
  have 0: "filter_err is_login_attempt evs = Inr (filter (\<lambda>x. is_login_attempt x = Inr True) evs)"
  proof (rule filter_err_total)
    fix x assume "x \<in> set evs"
    with assms have "well_typed_entry x" by simp
    then show "\<exists>b. is_login_attempt x = Inr b" by (rule well_typed_login_attempt)
  qed
  have eq: "filter (\<lambda>x. is_login_attempt x = Inr True) evs = filter is_login evs"
    by (rule filter_cong) (simp_all only: is_login_def)
  have 1: "filter_err is_login_attempt evs = Inr (filter is_login evs)"
    by (simp only: 0 eq)
  have q: "?q x = Inr (login_failed x)" if "x \<in> set evs" for x
  proof -
    from that assms have "well_typed_entry x" by simp
    then obtain v where "login_success x = Inr v"
      using well_typed_login_success by blast
    then show ?thesis by (simp add: login_failed_def)
  qed
  have 2: "filter_err ?q (filter is_login evs) =
             Inr (filter (\<lambda>x. ?q x = Inr True) (filter is_login evs))"
  proof (rule filter_err_total)
    fix x assume "x \<in> set (filter is_login evs)"
    then have "x \<in> set evs" by simp
    from q [OF this] show "\<exists>b. ?q x = Inr b" by blast
  qed
  have 3: "filter (\<lambda>x. ?q x = Inr True) (filter is_login evs) =
                 filter login_failed (filter is_login evs)"
  proof (rule filter_cong [OF refl])
    fix x assume "x \<in> set (filter is_login evs)"
    then have "x \<in> set evs" by simp
    from q [OF this] show "(?q x = Inr True) = login_failed x" by simp
  qed
  show ?thesis
  proof (cases "filter is_login evs = []")
    case True
    then show ?thesis
      by (simp add: calculate_real_failed_logins_rate_def 1 fraction_def)
  next
    case False
    have "calculate_real_failed_logins_rate evs =
          Inr (of_nat (length (filter login_failed (filter is_login evs))) /
               of_nat (length (filter is_login evs)))"
      unfolding calculate_real_failed_logins_rate_def
      by (simp only: 1 bind_err_Inr False if_False 2 3)
    then show ?thesis
      by (simp only: fraction_def False if_False)
  qed
qed

lemma export_current_metrics_well_typed:
  assumes "\<forall>e\<in>set (window_logs fromtimestamp now log_file). well_typed_entry e"
  shows "\<exists>avg users.
    export_current_metrics fromtimestamp now utcnow log_file =
      Inr \<lparr> total_requests = length (filter (is_event ''http_request'') (window_logs fromtimestamp now log_file)),
            success_rate = fraction (\<lambda>r. status_of r < 400) 1
               (filter (is_event ''http_request'') (window_logs fromtimestamp now log_file)),
            avg_response_time = avg,
            active_users = users,
            error_rate_5xx = fraction (\<lambda>r. 500 \<le> status_of r) 0
               (filter (is_event ''http_request'') (window_logs fromtimestamp now log_file)),
            error_rate_4xx = fraction (\<lambda>r. 400 \<le> status_of r \<and> status_of r < 500) 0
               (filter (is_event ''http_request'') (window_logs fromtimestamp now log_file)),
            failed_logins_rate = fraction login_failed 0
               (filter is_login (filter (is_event ''business_event'') (window_logs fromtimestamp now log_file))),
            current_timestamp = utcnow,
            http_requests = window_logs fromtimestamp now log_file,
            data_source = ''real_logs_and_prometheus'' \<rparr>"
proof -
  define logs where "logs = window_logs fromtimestamp now log_file"
  define reqs where "reqs = filter (is_event ''http_request'') logs"
  define evs where "evs = filter (is_event ''business_event'') logs"
  have wt: "\<forall>e\<in>set logs. well_typed_entry e"
    using assms by (simp add: logs_def)
  then have wr: "\<forall>e\<in>set reqs. well_typed_entry e" and we: "\<forall>e\<in>set evs. well_typed_entry e"
    by (simp_all add: reqs_def evs_def)
  obtain avg where avg: "calculate_real_avg_response_time reqs = Inr avg"
    using avg_response_time_well_typed [OF wr] by blast
  obtain users where users: "count_real_active_users logs = Inr users"
    using active_users_well_typed [OF wt] by blast
  have "export_current_metrics fromtimestamp now utcnow log_file =
      Inr \<lparr> total_requests = length reqs,
            success_rate = fraction (\<lambda>r. status_of r < 400) 1 reqs,
            avg_response_time = avg,
            active_users = users,
            error_rate_5xx = fraction (\<lambda>r. 500 \<le> status_of r) 0 reqs,
            error_rate_4xx = fraction (\<lambda>r. 400 \<le> status_of r \<and> status_of r < 500) 0 reqs,
            failed_logins_rate = fraction login_failed 0 (filter is_login evs),
            current_timestamp = utcnow,
            http_requests = logs,
            data_source = ''real_logs_and_prometheus'' \<rparr>"
    unfolding export_current_metrics_def window_logs_def [symmetric] logs_def [symmetric] Let_def
    by (simp add: filter_events [OF wt] reqs_def [symmetric] evs_def [symmetric]
        success_rate_well_typed [OF wr] error_rate_4xx_well_typed [OF wr]
        error_rate_5xx_well_typed [OF wr] failed_logins_rate_well_typed [OF we] avg users)
  then show ?thesis
    unfolding reqs_def evs_def logs_def by blast
qed

lemma export_current_metrics_fields:
  assumes "\<forall>e\<in>set (window_logs fromtimestamp now log_file). well_typed_entry e"
  shows "\<exists>m.
    export_current_metrics fromtimestamp now utcnow log_file = Inr m \<and>
    total_requests m = length (filter (is_event ''http_request'') (window_logs fromtimestamp now log_file)) \<and>
    success_rate m = fraction (\<lambda>r. status_of r < 400) 1
       (filter (is_event ''http_request'') (window_logs fromtimestamp now log_file)) \<and>
    error_rate_5xx m = fraction (\<lambda>r. 500 \<le> status_of r) 0
       (filter (is_event ''http_request'') (window_logs fromtimestamp now log_file)) \<and>
    error_rate_4xx m = fraction (\<lambda>r. 400 \<le> status_of r \<and> status_of r < 500) 0
       (filter (is_event ''http_request'') (window_logs fromtimestamp now log_file)) \<and>
    failed_logins_rate m = fraction login_failed 0
       (filter is_login (filter (is_event ''business_event'') (window_logs fromtimestamp now log_file))) \<and>
    current_timestamp m = utcnow \<and>
    http_requests m = window_logs fromtimestamp now log_file"
proof -
  obtain avg users where e:
    "export_current_metrics fromtimestamp now utcnow log_file =
      Inr \<lparr> total_requests = length (filter (is_event ''http_request'') (window_logs fromtimestamp now log_file)),
            success_rate = fraction (\<lambda>r. status_of r < 400) 1
               (filter (is_event ''http_request'') (window_logs fromtimestamp now log_file)),
            avg_response_time = avg,
            active_users = users,
            error_rate_5xx = fraction (\<lambda>r. 500 \<le> status_of r) 0
               (filter (is_event ''http_request'') (window_logs fromtimestamp now log_file)),
            error_rate_4xx = fraction (\<lambda>r. 400 \<le> status_of r \<and> status_of r < 500) 0
               (filter (is_event ''http_request'') (window_logs fromtimestamp now log_file)),
            failed_logins_rate = fraction login_failed 0
               (filter is_login (filter (is_event ''business_event'') (window_logs fromtimestamp now log_file))),
            current_timestamp = utcnow,
            http_requests = window_logs fromtimestamp now log_file,
            data_source = ''real_logs_and_prometheus'' \<rparr>"
    using export_current_metrics_well_typed [OF assms] by blast
  define m where "m = \<lparr> total_requests = length (filter (is_event ''http_request'') (window_logs fromtimestamp now log_file)),
            success_rate = fraction (\<lambda>r. status_of r < 400) 1
               (filter (is_event ''http_request'') (window_logs fromtimestamp now log_file)),
            avg_response_time = avg,
            active_users = users,
            error_rate_5xx = fraction (\<lambda>r. 500 \<le> status_of r) 0
               (filter (is_event ''http_request'') (window_logs fromtimestamp now log_file)),
            error_rate_4xx = fraction (\<lambda>r. 400 \<le> status_of r \<and> status_of r < 500) 0
               (filter (is_event ''http_request'') (window_logs fromtimestamp now log_file)),
            failed_logins_rate = fraction login_failed 0
               (filter is_login (filter (is_event ''business_event'') (window_logs fromtimestamp now log_file))),
            current_timestamp = utcnow,
            http_requests = window_logs fromtimestamp now log_file,
            data_source = ''real_logs_and_prometheus'' \<rparr>"
  have "export_current_metrics fromtimestamp now utcnow log_file = Inr m"
    using e by (simp only: m_def)
  moreover have "total_requests m = length (filter (is_event ''http_request'') (window_logs fromtimestamp now log_file))"
    by (simp only: m_def current_metrics.select_convs)
  moreover have "success_rate m = fraction (\<lambda>r. status_of r < 400) 1
       (filter (is_event ''http_request'') (window_logs fromtimestamp now log_file))"
    by (simp only: m_def current_metrics.select_convs)
  moreover have "error_rate_5xx m = fraction (\<lambda>r. 500 \<le> status_of r) 0
       (filter (is_event ''http_request'') (window_logs fromtimestamp now log_file))"
    by (simp only: m_def current_metrics.select_convs)
  moreover have "error_rate_4xx m = fraction (\<lambda>r. 400 \<le> status_of r \<and> status_of r < 500) 0
       (filter (is_event ''http_request'') (window_logs fromtimestamp now log_file))"
    by (simp only: m_def current_metrics.select_convs)
  moreover have "failed_logins_rate m = fraction login_failed 0
       (filter is_login (filter (is_event ''business_event'') (window_logs fromtimestamp now log_file)))"
    by (simp only: m_def current_metrics.select_convs)
  moreover have "current_timestamp m = utcnow"
    by (simp only: m_def current_metrics.select_convs)
  moreover have "http_requests m = window_logs fromtimestamp now log_file"
    by (simp only: m_def current_metrics.select_convs)
  ultimately show ?thesis by blast
qed

lemma length_filter_partition:
  fixes f :: "'a \<Rightarrow> rat"
  shows "length (filter (\<lambda>r. f r < 400) xs) + length (filter (\<lambda>r. 400 \<le> f r \<and> f r < 500) xs)
         + length (filter (\<lambda>r. 500 \<le> f r) xs) = length xs"
  by (induction xs) auto

lemma fraction_partition:
  fixes f :: "'a \<Rightarrow> rat"
  assumes "xs \<noteq> []"
  shows "fraction (\<lambda>r. f r < 400) d1 xs + fraction (\<lambda>r. 400 \<le> f r \<and> f r < 500) d2 xs
         + fraction (\<lambda>r. 500 \<le> f r) d3 xs = 1"
proof -
  let ?a = "length (filter (\<lambda>r. f r < 400) xs)"
  let ?b = "length (filter (\<lambda>r. 400 \<le> f r \<and> f r < 500) xs)"
  let ?c = "length (filter (\<lambda>r. 500 \<le> f r) xs)"
  have n: "(of_nat (length xs) :: rat) \<noteq> 0" using assms by simp
  have "(of_nat ?a + of_nat ?b + of_nat ?c :: rat) = of_nat (?a + ?b + ?c)" by simp
  also have "\<dots> = of_nat (length xs)" by (simp only: length_filter_partition)
  finally have s: "(of_nat ?a + of_nat ?b + of_nat ?c :: rat) = of_nat (length xs)" .
  have "fraction (\<lambda>r. f r < 400) d1 xs + fraction (\<lambda>r. 400 \<le> f r \<and> f r < 500) d2 xs
         + fraction (\<lambda>r. 500 \<le> f r) d3 xs
        = (of_nat ?a + of_nat ?b + of_nat ?c) / of_nat (length xs)"
    using assms by (simp add: fraction_def add_divide_distrib)
  also have "\<dots> = 1" using n by (simp add: s)
  finally show ?thesis .
qed

lemma fraction_bounds: "0 \<le> d \<Longrightarrow> d \<le> 1 \<Longrightarrow> 0 \<le> fraction P d xs \<and> fraction P d xs \<le> 1"
proof -
  assume d: "0 \<le> d" "d \<le> 1"
  have "length (filter P xs) \<le> length xs" by simp
  then have "(of_nat (length (filter P xs)) :: rat) \<le> of_nat (length xs)"
    by (simp only: of_nat_le_iff)
  then have "xs \<noteq> [] \<Longrightarrow> (of_nat (length (filter P xs)) :: rat) / of_nat (length xs) \<le> 1"
    by (simp add: divide_le_eq_1)
  with d show ?thesis by (simp add: fraction_def)
qed

lemma status_code_missing:
  assumes "get_extra req = Inr (PDict kvs)" and "map_of kvs ''status_code'' = None"
  shows "status_code req = Inr 0"
  using assms by (simp add: status_code_def)

lemma track_user_login_failed:
  assumes "get_extra e = Inr (track_user_login success username)"
  shows "is_login e \<and> (login_failed e \<longleftrightarrow> \<not> success)"
  using assms
  by (simp add: is_login_def is_login_attempt_def login_failed_def login_success_def
      track_user_login_def log_business_event_def)

lemma map_sum_bind_err:
  "map_sum id g (bind_err m f) = bind_err m (\<lambda>v. map_sum id g (f v))"
  by (cases m) (simp_all add: bind_err_def)

lemma sample_window_logs:
  "window_logs sample_fromtimestamp sample_now (Some sample_log) =
     [PDict [(''record'', PDict [(''extra'', sample_request 200 100),
                                 (''time'', PDict [(''timestamp'', PNum 1700000100)])]),
             (''parsed_timestamp'', PDatetime 63835596900000000)],
      PDict [(''record'', PDict [(''extra'', sample_request 404 200),
                                 (''time'', PDict [(''timestamp'', PNum 1700000200)])]),
             (''parsed_timestamp'', PDatetime 63835597000000000)],
      PDict [(''record'', PDict [(''extra'', sample_request 500 300),
                                 (''time'', PDict [(''timestamp'', PNum 1700000300)])]),
             (''parsed_timestamp'', PDatetime 63835597100000000)],
      PDict [(''record'', PDict [(''extra'', track_user_login True ''ana''),
                                 (''time'', PDict [(''timestamp'', PNum 1700000400)])]),
             (''parsed_timestamp'', PDatetime 63835597200000000)],
      PDict [(''record'', PDict [(''extra'', track_user_login False ''ana''),
                                 (''time'', PDict [(''timestamp'', PNum 1700000500)])]),
             (''parsed_timestamp'', PDatetime 63835597300000000)]]"
  by code_simp

lemma sample_well_typed:
  "\<forall>e\<in>set (window_logs sample_fromtimestamp sample_now (Some sample_log)). well_typed_entry e"
  by code_simp

section \<open>Which records are login attempts\<close>

lemma is_login_event_name:
  assumes "get_extra e = Inr (PDict kvs)"
  shows "is_login e \<longleftrightarrow> map_of kvs ''event_name'' = Some (PStr ''user_login_attempt'')"
  using assms
  by (simp add: is_login_def is_login_attempt_def py_get.simps split: option.splits)

lemma is_event_event_type:
  assumes "get_extra e = Inr (PDict kvs)"
  shows "is_event t e \<longleftrightarrow> map_of kvs ''event_type'' = Some (PStr t)"
  using assms
  by (simp add: is_event_def has_event_type_def py_get.simps split: option.splits)


lemma sample_login_well_typed:
  "\<forall>e\<in>set (window_logs sample_fromtimestamp sample_now (Some sample_login_log)). well_typed_entry e"
  by code_simp

section \<open>The window of the reader\<close>

lemma window_records_Cons:
  "window_records fromtimestamp since (l # ls) =
     (case line_time fromtimestamp l of
        None \<Rightarrow> window_records fromtimestamp since ls
      | Some t \<Rightarrow> if since \<le> t then stamped l t # window_records fromtimestamp since ls
                  else window_records fromtimestamp since ls)"
  by (simp add: window_records_def map_filter_simps split: option.splits)

lemma window_records_Nil: "window_records fromtimestamp since [] = []"
  by (simp add: window_records_def map_filter_simps)

lemma read_lines_window:
  "read_lines fromtimestamp (Some since) f logs =
   logs @ window_records fromtimestamp since (takeWhile (readable_line fromtimestamp) f)"
proof (induction f arbitrary: logs)
  case Nil
  show ?case by (simp add: window_records_Nil)
next
  case (Cons l f)
  show ?case
  proof (cases l)
    case Blank
    have "readable_line fromtimestamp Blank" "line_time fromtimestamp Blank = None"
      by (simp_all add: readable_line_def line_time_def)
    then show ?thesis
      using Cons Blank by (simp add: window_records_Cons)
  next
    case Undecodable
    have "readable_line fromtimestamp Undecodable" "line_time fromtimestamp Undecodable = None"
      by (simp_all add: readable_line_def line_time_def)
    then show ?thesis
      using Cons Undecodable by (simp add: window_records_Cons)
  next
    case (Decoded e)
    show ?thesis
    proof (cases "timestamp_raw e")
      case (Inl err)
      then have "\<not> readable_line fromtimestamp (Decoded e)"
        by (simp add: readable_line_def)
      then show ?thesis
        using Decoded Inl by (simp add: window_records_Nil)
    next
      case (Inr v)
      then obtain kvs where e: "e = PDict kvs"
        by (cases e) (simp_all add: timestamp_raw_def)
      show ?thesis
      proof (cases "py_truthy v")
        case False
        then have "readable_line fromtimestamp (Decoded e)"
          "line_time fromtimestamp (Decoded e) = None"
          using Inr by (simp_all add: readable_line_def line_time_def)
        then show ?thesis
          using Decoded Inr False Cons by (simp add: window_records_Cons)
      next
        case True
        show ?thesis
        proof (cases "py_num v")
          case (Inl err)
          then have "\<not> readable_line fromtimestamp (Decoded e)"
            using Inr True by (simp add: readable_line_def)
          then show ?thesis
            using Decoded Inr True Inl by (simp add: window_records_Nil)
        next
          case num: (Inr ts)
          show ?thesis
          proof (cases "fromtimestamp ts")
            case None
            then have "\<not> readable_line fromtimestamp (Decoded e)"
              using Inr True num by (simp add: readable_line_def)
            then show ?thesis
              using Decoded Inr True num None by (simp add: window_records_Nil)
          next
            case (Some t)
            then have r: "readable_line fromtimestamp (Decoded e)"
              and lt: "line_time fromtimestamp (Decoded e) = Some t"
              using Inr True num by (simp_all add: readable_line_def line_time_def)
            have st: "stamped (Decoded e) t = PDict (AList.update ''parsed_timestamp'' (PDatetime t) kvs)"
              by (simp add: stamped_def e)
            show ?thesis
            proof (cases "t < since")
              case True
              then show ?thesis
                using Decoded Inr \<open>py_truthy v\<close> num Some r lt Cons
                by (simp add: window_records_Cons)
            next
              case False
              then show ?thesis
                using Decoded Inr \<open>py_truthy v\<close> num Some r lt st Cons e
                by (simp add: window_records_Cons)
            qed
          qed
        qed
      qed
    qed
  qed
qed

lemma line_time_Some:
  assumes "line_time fromtimestamp l = Some t"
  shows "\<exists>kvs. l = Decoded (PDict kvs)"
proof (cases l)
  case (Decoded e)
  show ?thesis
  proof (cases "timestamp_raw e")
    case (Inl err)
    with assms Decoded show ?thesis by (simp add: line_time_def)
  next
    case (Inr v)
    then obtain kvs where "e = PDict kvs"
      by (cases e) (simp_all add: timestamp_raw_def)
    with Decoded show ?thesis by simp
  qed
next
  case Blank
  with assms show ?thesis by (simp add: line_time_def)
next
  case Undecodable
  with assms show ?thesis by (simp add: line_time_def)
qed

lemma stamped_parsed_timestamp:
  assumes "line_time fromtimestamp l = Some t"
  shows "py_get (stamped l t) ''parsed_timestamp'' PNone = Inr (PDatetime t)"
proof -
  from line_time_Some [OF assms] obtain kvs where "l = Decoded (PDict kvs)" ..
  then show ?thesis
    by (simp add: stamped_def update_conv')
qed

lemma window_records_stamped:
  assumes "r \<in> set (window_records fromtimestamp since ls)"
  shows "\<exists>t. py_get r ''parsed_timestamp'' PNone = Inr (PDatetime t) \<and> since \<le> t"
  using assms
proof (induction ls)
  case Nil
  then show ?case by (simp add: window_records_Nil)
next
  case (Cons l ls)
  show ?case
  proof (cases "line_time fromtimestamp l")
    case None
    with Cons show ?thesis by (simp add: window_records_Cons)
  next
    case (Some t)
    show ?thesis
    proof (cases "since \<le> t")
      case False
      with Cons Some show ?thesis by (simp add: window_records_Cons)
    next
      case True
      with Cons.prems Some have "r = stamped l t \<or> r \<in> set (window_records fromtimestamp since ls)"
        by (simp add: window_records_Cons)
      then show ?thesis
      proof
        assume "r = stamped l t"
        with stamped_parsed_timestamp [OF Some] True show ?thesis by blast
      next
        assume "r \<in> set (window_records fromtimestamp since ls)"
        then show ?thesis by (rule Cons.IH)
      qed
    qed
  qed
qed

lemma window_logs_window_records:
  "window_logs fromtimestamp now log_file =
     (case log_file of
        None \<Rightarrow> []
      | Some f \<Rightarrow> window_records fromtimestamp (now - timedelta_hours 1)
                   (takeWhile (readable_line fromtimestamp) f))"
  by (simp add: window_logs_def read_structured_logs_def read_lines_window split: option.splits)

lemma sample_later_well_typed:
  "\<forall>e\<in>set (window_logs sample_fromtimestamp (sample_now + 800000000) (Some sample_log)).
     well_typed_entry e"
  by code_simp

section \<open>Rounding a quotient to a float\<close>

lemma scale_up_eq:
  "0 < x \<Longrightarrow> j \<le> n \<Longrightarrow> 4503599627370496 \<le> x * 2 ^ j \<Longrightarrow> x * 2 ^ j < 9007199254740992
   \<Longrightarrow> scale_up n x k = (x * 2 ^ j, k + j)"
proof (induction n arbitrary: x k j)
  case 0
  then show ?case by simp
next
  case (Suc n)
  show ?case
  proof (cases "x < 4503599627370496")
    case True
    with Suc.prems obtain j' where j: "j = Suc j'"
      by (cases j) simp_all
    have "scale_up n (2 * x) (Suc k) = (2 * x * 2 ^ j', Suc k + j')"
      using Suc.prems j by (intro Suc.IH) (simp_all add: mult.assoc)
    then show ?thesis
      using True j by (simp add: mult.assoc)
  next
    case False
    have "j = 0"
    proof (rule ccontr)
      assume "j \<noteq> 0"
      then obtain j' where j: "j = Suc j'"
        by (cases j) simp_all
      have "(1::rat) \<le> 2 ^ j'" by simp
      then have "x * 1 \<le> x * 2 ^ j'"
        using Suc.prems(1) by (intro mult_left_mono) simp_all
      moreover have "x * 2 ^ j' < 4503599627370496"
        using Suc.prems(4) j by simp
      ultimately show False
        using False by linarith
    qed
    then show ?thesis
      using False by simp
  qed
qed

lemma round_half_even_down:
  assumes "of_int n \<le> y" "y < of_int n + 1 / 2"
  shows "round_half_even y = n"
proof -
  have "\<lfloor>y\<rfloor> = n"
    using assms by (intro floor_unique) simp_all
  then show ?thesis
    using assms by (simp add: round_half_even_def Let_def)
qed

lemma py_float_down:
  assumes "0 < x" "x < 4503599627370496" "j \<le> 1074"
    "4503599627370496 \<le> x * 2 ^ j" "x * 2 ^ j < 9007199254740992"
    "of_int n \<le> x * 2 ^ j" "x * 2 ^ j < of_int n + 1 / 2"
  shows "py_float x = of_int n / 2 ^ j"
proof -
  have "scale_up 1074 x 0 = (x * 2 ^ j, 0 + j)"
    using assms(1,3,4,5) by (intro scale_up_eq)
  moreover have "round_half_even (x * 2 ^ j) = n"
    using assms(6,7) by (rule round_half_even_down)
  ultimately show ?thesis
    using assms(1,2) by (simp add: py_float_def py_float_pos_def)
qed

lemma float_sixth: "py_float (1 / 6) = 6004799503160661 / 36028797018963968"
  using py_float_down [of "1 / 6" 55 6004799503160661] by simp

lemma float_two_thirds: "py_float (2 / 3) = 6004799503160661 / 9007199254740992"
  using py_float_down [of "2 / 3" 53 6004799503160661] by simp

lemma float_add_1:
  "py_float (6004799503160661 / 36028797018963968 + 6004799503160661 / 9007199254740992)
   = 7505999378950826 / 9007199254740992"
  using py_float_down [of "6004799503160661 / 36028797018963968 + 6004799503160661 / 9007199254740992" 53 7505999378950826]
  by simp

lemma float_add_2:
  "py_float (7505999378950826 / 9007199254740992 + 6004799503160661 / 36028797018963968)
   = 9007199254740991 / 9007199254740992"
  using py_float_down [of "7505999378950826 / 9007199254740992 + 6004799503160661 / 36028797018963968" 53 9007199254740991]
  by simp

lemma six_rates:
  "map_sum id (\<lambda>m. (success_rate m, error_rate_4xx m, error_rate_5xx m))
     (export_current_metrics sample_fromtimestamp sample_now sample_now (Some sample_six_log))
   = Inr (1 / 6, 2 / 3, 1 / 6)"
  by code_simp

section \<open>Success rate\<close>

text \<open>
  Claim C1. For every set of well-typed records in the trailing hour,
  \<^verbatim>\<open>export_current_metrics\<close> returns, and its \<open>success_rate\<close> is the number of
  \<open>http_request\<close> records with status below 400 divided by \<open>total_requests\<close>, is
  exactly 1 when \<open>total_requests\<close> is 0, and lies in [0, 1]. The status of a record is
  what the code reads: the \<open>status_code\<close> field, 0 where it is absent. Quotients are exact
  rationals; the rounding of the floating-point division is not modelled.
\<close>

theorem current_metrics_success_rate:
  assumes "\<forall>e\<in>set (window_logs fromtimestamp now log_file). well_typed_entry e"
  shows "\<exists>m. export_current_metrics fromtimestamp now utcnow log_file = Inr m \<and>
           (let reqs = filter (is_event ''http_request'') (window_logs fromtimestamp now log_file)
            in total_requests m = length reqs \<and>
               success_rate m =
                 (if total_requests m = 0 then 1
                  else of_nat (length (filter (\<lambda>req. status_of req < 400) reqs)) /
                       of_nat (total_requests m)) \<and>
               0 \<le> success_rate m \<and> success_rate m \<le> 1)"
proof -
  obtain avg users where
    "export_current_metrics fromtimestamp now utcnow log_file =
      Inr \<lparr> total_requests = length (filter (is_event ''http_request'') (window_logs fromtimestamp now log_file)),
            success_rate = fraction (\<lambda>r. status_of r < 400) 1
               (filter (is_event ''http_request'') (window_logs fromtimestamp now log_file)),
            avg_response_time = avg,
            active_users = users,
            error_rate_5xx = fraction (\<lambda>r. 500 \<le> status_of r) 0
               (filter (is_event ''http_request'') (window_logs fromtimestamp now log_file)),
            error_rate_4xx = fraction (\<lambda>r. 400 \<le> status_of r \<and> status_of r < 500) 0
               (filter (is_event ''http_request'') (window_logs fromtimestamp now log_file)),
            failed_logins_rate = fraction login_failed 0
               (filter is_login (filter (is_event ''business_event'') (window_logs fromtimestamp now log_file))),
            current_timestamp = utcnow,
            http_requests = window_logs fromtimestamp now log_file,
            data_source = ''real_logs_and_prometheus'' \<rparr>"
    using export_current_metrics_well_typed [OF assms] by blast
  moreover have "0 \<le> fraction (\<lambda>r. status_of r < 400) 1 xs \<and> fraction (\<lambda>r. status_of r < 400) 1 xs \<le> 1" for xs
    by (rule fraction_bounds) simp_all
  ultimately show ?thesis
    by (simp add: Let_def fraction_def)
qed

text \<open>
  On the sample log (status codes 200, 404 and 500 within the hour) the hypothesis holds and
  the call returns \<open>total_requests = 3\<close> and \<open>success_rate = 1/3\<close>.
\<close>

theorem current_metrics_success_rate_witness:
  "\<exists>m. export_current_metrics sample_fromtimestamp sample_now sample_now (Some sample_log) = Inr m \<and>
       total_requests m = 3 \<and> success_rate m = 1 / 3"
proof -
  have l: "length (filter (is_event ''http_request'')
            (window_logs sample_fromtimestamp sample_now (Some sample_log))) = 3"
    by code_simp
  have s: "length (filter (\<lambda>req. status_of req < 400) (filter (is_event ''http_request'')
            (window_logs sample_fromtimestamp sample_now (Some sample_log)))) = 1"
    by code_simp
  obtain m where m: "export_current_metrics sample_fromtimestamp sample_now sample_now (Some sample_log) = Inr m"
    and t: "total_requests m = length (filter (is_event ''http_request'')
              (window_logs sample_fromtimestamp sample_now (Some sample_log)))"
    and r: "success_rate m =
              (if total_requests m = 0 then 1
               else of_nat (length (filter (\<lambda>req. status_of req < 400) (filter (is_event ''http_request'')
                      (window_logs sample_fromtimestamp sample_now (Some sample_log))))) /
                    of_nat (total_requests m))"
    using current_metrics_success_rate [OF sample_well_typed, of sample_now]
    unfolding Let_def by blast
  from t have t3: "total_requests m = 3" by (simp only: l)
  from r have "success_rate m = 1 / 3" by (simp only: t3 s) simp
  with m t3 show ?thesis by blast
qed

section \<open>The three rates and their sum\<close>

text \<open>
  Claim C10, refuted as stated. The rates that \<^verbatim>\<open>export_current_metrics\<close> returns are
  floats. For six \<open>http_request\<close> records with the statuses 200, 404, 404, 404, 404 and
  500 the rates are the floats nearest to 1/6, 2/3 and 1/6, and the float sum
  \<open>success_rate + error_rate_4xx + error_rate_5xx\<close> is \<open>1 - 1 / 2 ^ 53\<close>, which Python prints
  as 0.9999999999999999: it is not 1.
\<close>

theorem rates_float_sum_counterexample:
  "map_sum id float_rate_sum
     (export_current_metrics sample_fromtimestamp sample_now sample_now (Some sample_six_log))
     = Inr (9007199254740991 / 9007199254740992) \<and>
   map_sum id float_rate_sum
     (export_current_metrics sample_fromtimestamp sample_now sample_now (Some sample_six_log))
     \<noteq> Inr 1"
proof -
  obtain m where m: "export_current_metrics sample_fromtimestamp sample_now sample_now
                       (Some sample_six_log) = Inr m"
    and s: "success_rate m = 1 / 6" and e4: "error_rate_4xx m = 2 / 3"
    and e5: "error_rate_5xx m = 1 / 6"
    using six_rates
    by (cases "export_current_metrics sample_fromtimestamp sample_now sample_now
                 (Some sample_six_log)") simp_all
  have "float_rate_sum m = 9007199254740991 / 9007199254740992"
    unfolding float_rate_sum_def py_float_add_def
    by (simp only: s e4 e5 float_sixth float_two_thirds float_add_1 float_add_2)
  with m show ?thesis by simp
qed

text \<open>
  Claim C10, amended. For every non-empty set of well-typed \<open>http_request\<close> records in
  the window, the numbers of records with a status below 400, from 400 to 499, and from
  500 on add up to \<open>total_requests\<close>, each rate is the quotient of its number by
  \<open>total_requests\<close>, and these three exact quotients sum to 1; a record without a
  \<open>status_code\<close> is read as status 0, so it counts as a success and as neither kind of
  error. The returned values are the floats nearest to the quotients, as above.
\<close>

theorem exact_rates_sum_to_one:
  assumes "\<forall>e\<in>set (window_logs fromtimestamp now log_file). well_typed_entry e"
    and "filter (is_event ''http_request'') (window_logs fromtimestamp now log_file) \<noteq> []"
  shows "(\<exists>m. export_current_metrics fromtimestamp now utcnow log_file = Inr m \<and>
            success_rate m + error_rate_4xx m + error_rate_5xx m = 1 \<and>
            (let reqs = filter (is_event ''http_request'') (window_logs fromtimestamp now log_file)
             in length (filter (\<lambda>r. status_of r < 400) reqs)
                  + length (filter (\<lambda>r. 400 \<le> status_of r \<and> status_of r < 500) reqs)
                  + length (filter (\<lambda>r. 500 \<le> status_of r) reqs) = total_requests m \<and>
                success_rate m = of_nat (length (filter (\<lambda>r. status_of r < 400) reqs))
                                   / of_nat (total_requests m) \<and>
                error_rate_4xx m =
                  of_nat (length (filter (\<lambda>r. 400 \<le> status_of r \<and> status_of r < 500) reqs))
                    / of_nat (total_requests m) \<and>
                error_rate_5xx m = of_nat (length (filter (\<lambda>r. 500 \<le> status_of r) reqs))
                                     / of_nat (total_requests m))) \<and>
         (\<forall>req kvs. get_extra req = Inr (PDict kvs) \<and> map_of kvs ''status_code'' = None \<longrightarrow>
            status_code req = Inr 0 \<and> status_of req < 400 \<and>
            \<not> (400 \<le> status_of req \<and> status_of req < 500) \<and> \<not> 500 \<le> status_of req)"
proof
  let ?reqs = "filter (is_event ''http_request'') (window_logs fromtimestamp now log_file)"
  obtain m where m: "export_current_metrics fromtimestamp now utcnow log_file = Inr m"
    and t: "total_requests m = length ?reqs"
    and s: "success_rate m = fraction (\<lambda>r. status_of r < 400) 1 ?reqs"
    and e5: "error_rate_5xx m = fraction (\<lambda>r. 500 \<le> status_of r) 0 ?reqs"
    and e4: "error_rate_4xx m = fraction (\<lambda>r. 400 \<le> status_of r \<and> status_of r < 500) 0 ?reqs"
    using export_current_metrics_fields [OF assms(1), of utcnow] by blast
  have one: "success_rate m + error_rate_4xx m + error_rate_5xx m = 1"
    unfolding s e4 e5 by (rule fraction_partition [OF assms(2)])
  have counts: "length (filter (\<lambda>r. status_of r < 400) ?reqs)
                  + length (filter (\<lambda>r. 400 \<le> status_of r \<and> status_of r < 500) ?reqs)
                  + length (filter (\<lambda>r. 500 \<le> status_of r) ?reqs) = total_requests m"
    unfolding t by (rule length_filter_partition)
  have qs: "success_rate m = of_nat (length (filter (\<lambda>r. status_of r < 400) ?reqs))
                                   / of_nat (total_requests m)"
    unfolding s t using assms(2) by (simp only: fraction_def if_False)
  have q4: "error_rate_4xx m =
                  of_nat (length (filter (\<lambda>r. 400 \<le> status_of r \<and> status_of r < 500) ?reqs))
                    / of_nat (total_requests m)"
    unfolding e4 t using assms(2) by (simp only: fraction_def if_False)
  have q5: "error_rate_5xx m = of_nat (length (filter (\<lambda>r. 500 \<le> status_of r) ?reqs))
                                     / of_nat (total_requests m)"
    unfolding e5 t using assms(2) by (simp only: fraction_def if_False)
  show "\<exists>m. export_current_metrics fromtimestamp now utcnow log_file = Inr m \<and>
            success_rate m + error_rate_4xx m + error_rate_5xx m = 1 \<and>
            (let reqs = filter (is_event ''http_request'') (window_logs fromtimestamp now log_file)
             in length (filter (\<lambda>r. status_of r < 400) reqs)
                  + length (filter (\<lambda>r. 400 \<le> status_of r \<and> status_of r < 500) reqs)
                  + length (filter (\<lambda>r. 500 \<le> status_of r) reqs) = total_requests m \<and>
                success_rate m = of_nat (length (filter (\<lambda>r. status_of r < 400) reqs))
                                   / of_nat (total_requests m) \<and>
                error_rate_4xx m =
                  of_nat (length (filter (\<lambda>r. 400 \<le> status_of r \<and> status_of r < 500) reqs))
                    / of_nat (total_requests m) \<and>
                error_rate_5xx m = of_nat (length (filter (\<lambda>r. 500 \<le> status_of r) reqs))
                                     / of_nat (total_requests m))"
    unfolding Let_def using m one counts qs q4 q5 by (intro exI [of _ m] conjI)
next
  show "\<forall>req kvs. get_extra req = Inr (PDict kvs) \<and> map_of kvs ''status_code'' = None \<longrightarrow>
            status_code req = Inr 0 \<and> status_of req < 400 \<and>
            \<not> (400 \<le> status_of req \<and> status_of req < 500) \<and> \<not> 500 \<le> status_of req"
    by (simp add: status_code_missing status_of_def)
qed

text \<open>
  On the sample log the three numbers are 1, 1 and 1 of 3 requests and the exact
  quotients sum to 1; a request record with no \<open>status_code\<close> has status 0.
\<close>

theorem exact_rates_sum_to_one_witness:
  "(\<exists>m. export_current_metrics sample_fromtimestamp sample_now sample_now (Some sample_log) = Inr m \<and>
        success_rate m + error_rate_4xx m + error_rate_5xx m = 1 \<and> total_requests m = 3) \<and>
   status_code (PDict [(''record'', PDict [(''extra'', PDict [(''event_type'', PStr ''http_request'')])])])
     = Inr 0"
proof -
  have ne: "filter (is_event ''http_request'')
              (window_logs sample_fromtimestamp sample_now (Some sample_log)) \<noteq> []"
    by code_simp
  have l3: "length (filter (\<lambda>r. status_of r < 400) (filter (is_event ''http_request'')
              (window_logs sample_fromtimestamp sample_now (Some sample_log))))
            + length (filter (\<lambda>r. 400 \<le> status_of r \<and> status_of r < 500) (filter (is_event ''http_request'')
              (window_logs sample_fromtimestamp sample_now (Some sample_log))))
            + length (filter (\<lambda>r. 500 \<le> status_of r) (filter (is_event ''http_request'')
              (window_logs sample_fromtimestamp sample_now (Some sample_log)))) = 3"
    by code_simp
  have g: "get_extra (PDict [(''record'', PDict [(''extra'', PDict [(''event_type'', PStr ''http_request'')])])])
           = Inr (PDict [(''event_type'', PStr ''http_request'')])"
    by (simp add: get_extra_def bind_err_def)
  have k: "map_of [(''event_type'', PStr ''http_request'')] ''status_code'' = None"
    by simp
  note t = exact_rates_sum_to_one [OF sample_well_typed ne, of sample_now]
  from t [THEN conjunct1] obtain m
    where m: "export_current_metrics sample_fromtimestamp sample_now sample_now (Some sample_log) = Inr m"
      and one: "success_rate m + error_rate_4xx m + error_rate_5xx m = 1"
      and c: "length (filter (\<lambda>r. status_of r < 400) (filter (is_event ''http_request'')
              (window_logs sample_fromtimestamp sample_now (Some sample_log))))
            + length (filter (\<lambda>r. 400 \<le> status_of r \<and> status_of r < 500) (filter (is_event ''http_request'')
              (window_logs sample_fromtimestamp sample_now (Some sample_log))))
            + length (filter (\<lambda>r. 500 \<le> status_of r) (filter (is_event ''http_request'')
              (window_logs sample_fromtimestamp sample_now (Some sample_log)))) = total_requests m"
    unfolding Let_def by blast
  from c l3 have "total_requests m = 3" by (simp only:)
  with m one have "\<exists>m. export_current_metrics sample_fromtimestamp sample_now sample_now (Some sample_log) = Inr m \<and>
        success_rate m + error_rate_4xx m + error_rate_5xx m = 1 \<and> total_requests m = 3"
    by blast
  moreover from t [THEN conjunct2] g k
  have "status_code (PDict [(''record'', PDict [(''extra'', PDict [(''event_type'', PStr ''http_request'')])])])
     = Inr 0"
    by blast
  ultimately show ?thesis by (rule conjI)
qed

section \<open>Failed logins\<close>

text \<open>
  Claim C7. For every set of well-typed records in the window,
  \<open>failed_logins_rate\<close> is, among the \<open>business_event\<close> records whose \<open>event_name\<close> is
  \<open>user_login_attempt\<close>, the fraction whose \<open>context.success\<close> is false, and 0 when
  there is no such record. The records counted are exactly those whose \<open>extra\<close> holds
  the string \<open>business_event\<close> under \<open>event_type\<close> and the string \<open>user_login_attempt\<close>
  under \<open>event_name\<close>: a business event of any other name is left out. False is what
  Python's \<^verbatim>\<open>not\<close> takes for false, with an absent \<open>success\<close> read as true; for the
  records that \<^verbatim>\<open>track_user_login\<close> writes this is the boolean it was called with.
\<close>

theorem current_metrics_failed_logins_rate:
  assumes "\<forall>e\<in>set (window_logs fromtimestamp now log_file). well_typed_entry e"
  shows "(\<exists>m. export_current_metrics fromtimestamp now utcnow log_file = Inr m \<and>
           (let logins = filter is_login (filter (is_event ''business_event'')
                           (window_logs fromtimestamp now log_file))
            in failed_logins_rate m =
                 (if logins = [] then 0
                  else of_nat (length (filter login_failed logins)) / of_nat (length logins)))) \<and>
         (\<forall>e\<in>set (window_logs fromtimestamp now log_file).
            \<exists>kvs. get_extra e = Inr (PDict kvs) \<and>
              (is_event ''business_event'' e \<longleftrightarrow>
                 map_of kvs ''event_type'' = Some (PStr ''business_event'')) \<and>
              (is_login e \<longleftrightarrow>
                 map_of kvs ''event_name'' = Some (PStr ''user_login_attempt''))) \<and>
         (\<forall>e kvs. get_extra e = Inr (PDict kvs) \<longrightarrow>
            (is_login e \<longleftrightarrow> map_of kvs ''event_name'' = Some (PStr ''user_login_attempt''))) \<and>
         (\<forall>e success username. get_extra e = Inr (track_user_login success username) \<longrightarrow>
            is_login e \<and> (login_failed e \<longleftrightarrow> \<not> success))"
proof (intro conjI)
  obtain m where m: "export_current_metrics fromtimestamp now utcnow log_file = Inr m"
    and f: "failed_logins_rate m = fraction login_failed 0
       (filter is_login (filter (is_event ''business_event'') (window_logs fromtimestamp now log_file)))"
    using export_current_metrics_fields [OF assms, of utcnow] by blast
  from f have "let logins = filter is_login (filter (is_event ''business_event'')
                           (window_logs fromtimestamp now log_file))
            in failed_logins_rate m =
                 (if logins = [] then 0
                  else of_nat (length (filter login_failed logins)) / of_nat (length logins))"
    by (simp only: Let_def fraction_def)
  with m show "\<exists>m. export_current_metrics fromtimestamp now utcnow log_file = Inr m \<and>
           (let logins = filter is_login (filter (is_event ''business_event'')
                           (window_logs fromtimestamp now log_file))
            in failed_logins_rate m =
                 (if logins = [] then 0
                  else of_nat (length (filter login_failed logins)) / of_nat (length logins)))"
    by blast
next
  show "\<forall>e\<in>set (window_logs fromtimestamp now log_file).
            \<exists>kvs. get_extra e = Inr (PDict kvs) \<and>
              (is_event ''business_event'' e \<longleftrightarrow>
                 map_of kvs ''event_type'' = Some (PStr ''business_event'')) \<and>
              (is_login e \<longleftrightarrow>
                 map_of kvs ''event_name'' = Some (PStr ''user_login_attempt''))"
  proof
    fix e
    assume "e \<in> set (window_logs fromtimestamp now log_file)"
    with assms have "well_typed_entry e" by blast
    then obtain kvs where k: "get_extra e = Inr (PDict kvs)"
      using well_typed_extra by blast
    from k is_event_event_type [OF k, of "''business_event''"] is_login_event_name [OF k]
    show "\<exists>kvs. get_extra e = Inr (PDict kvs) \<and>
              (is_event ''business_event'' e \<longleftrightarrow>
                 map_of kvs ''event_type'' = Some (PStr ''business_event'')) \<and>
              (is_login e \<longleftrightarrow>
                 map_of kvs ''event_name'' = Some (PStr ''user_login_attempt''))"
      by (intro exI [of _ kvs] conjI)
  qed
next
  show "\<forall>e kvs. get_extra e = Inr (PDict kvs) \<longrightarrow>
            (is_login e \<longleftrightarrow> map_of kvs ''event_name'' = Some (PStr ''user_login_attempt''))"
    using is_login_event_name by blast
next
  show "\<forall>e success username. get_extra e = Inr (track_user_login success username) \<longrightarrow>
            is_login e \<and> (login_failed e \<longleftrightarrow> \<not> success)"
    using track_user_login_failed by blast
qed

text \<open>
  A log with a successful login attempt, a business event \<open>ml_prediction_made\<close>, a
  failed login attempt and a request, all in the window: of the three business events
  the two login attempts are counted, the other event is not, and
  \<open>failed_logins_rate = 1/2\<close>.
\<close>

theorem current_metrics_failed_logins_rate_witness:
  "(\<exists>m. export_current_metrics sample_fromtimestamp sample_now sample_now (Some sample_login_log) = Inr m \<and>
       failed_logins_rate m = 1 / 2) \<and>
   length (window_logs sample_fromtimestamp sample_now (Some sample_login_log)) = 4 \<and>
   length (filter (is_event ''business_event'')
     (window_logs sample_fromtimestamp sample_now (Some sample_login_log))) = 3 \<and>
   length (filter is_login (filter (is_event ''business_event'')
     (window_logs sample_fromtimestamp sample_now (Some sample_login_log)))) = 2 \<and>
   \<not> is_login (PDict [(''record'', PDict [(''extra'', track_ml_prediction False PNone)])])"
proof -
  have a: "length (window_logs sample_fromtimestamp sample_now (Some sample_login_log)) = 4"
    by code_simp
  have b: "length (filter (is_event ''business_event'')
     (window_logs sample_fromtimestamp sample_now (Some sample_login_log))) = 3"
    by code_simp
  have l: "length (filter is_login (filter (is_event ''business_event'')
            (window_logs sample_fromtimestamp sample_now (Some sample_login_log)))) = 2"
    by code_simp
  have s: "length (filter login_failed (filter is_login (filter (is_event ''business_event'')
            (window_logs sample_fromtimestamp sample_now (Some sample_login_log))))) = 1"
    by code_simp
  have ne: "filter is_login (filter (is_event ''business_event'')
            (window_logs sample_fromtimestamp sample_now (Some sample_login_log))) \<noteq> []"
    using l by auto
  have g: "get_extra (PDict [(''record'', PDict [(''extra'', track_ml_prediction False PNone)])])
           = Inr (PDict [(''event_type'', PStr ''business_event''),
                         (''event_name'', PStr ''ml_prediction_made''),
                         (''user_id'', PNone),
                         (''context'', PDict [(''recommended'', PBool False)])])"
    by code_simp
  note t = current_metrics_failed_logins_rate [OF sample_login_well_typed, of sample_now]
  from t [THEN conjunct1] obtain m
    where m: "export_current_metrics sample_fromtimestamp sample_now sample_now (Some sample_login_log) = Inr m"
    and r: "failed_logins_rate m =
              (if filter is_login (filter (is_event ''business_event'')
                    (window_logs sample_fromtimestamp sample_now (Some sample_login_log))) = [] then 0
               else of_nat (length (filter login_failed (filter is_login (filter (is_event ''business_event'')
                      (window_logs sample_fromtimestamp sample_now (Some sample_login_log)))))) /
                    of_nat (length (filter is_login (filter (is_event ''business_event'')
                      (window_logs sample_fromtimestamp sample_now (Some sample_login_log))))))"
    unfolding Let_def by blast
  from r have "failed_logins_rate m = 1 / 2" by (simp add: ne l s del: filter_filter)
  with m have e: "\<exists>m. export_current_metrics sample_fromtimestamp sample_now sample_now
      (Some sample_login_log) = Inr m \<and> failed_logins_rate m = 1 / 2"
    by blast
  from t [THEN conjunct2, THEN conjunct2, THEN conjunct1] g
  have "is_login (PDict [(''record'', PDict [(''extra'', track_ml_prediction False PNone)])]) \<longleftrightarrow>
        map_of [(''event_type'', PStr ''business_event''),
                (''event_name'', PStr ''ml_prediction_made''),
                (''user_id'', PNone),
                (''context'', PDict [(''recommended'', PBool False)])] ''event_name''
          = Some (PStr ''user_login_attempt'')"
    by blast
  then have n: "\<not> is_login (PDict [(''record'', PDict [(''extra'', track_ml_prediction False PNone)])])"
    by simp
  from e a b l n show ?thesis by (intro conjI)
qed

section \<open>The key \<open>http_requests\<close>\<close>

text \<open>
  Claim C9. The mapping that \<^verbatim>\<open>export_current_metrics\<close> returns holds, under the key
  \<open>http_requests\<close>, the whole list that \<^verbatim>\<open>_read_structured_logs\<close> returned for the
  trailing hour: every record of every event type, not only the \<open>http_request\<close> records.
  The trailing hour is this: of the lines read (the lines before the first one that
  makes the reader stop), the list holds, in their order, the records whose timestamp
  gives a datetime that is not before one hour before the current time, each with that
  datetime stored under \<open>parsed_timestamp\<close>; it holds nothing else, so a record from
  before that hour is not in it, whatever its event type.
\<close>

theorem current_metrics_http_requests_all_records:
  assumes "\<forall>e\<in>set (window_logs fromtimestamp now log_file). well_typed_entry e"
  shows "\<exists>m. export_current_metrics fromtimestamp now utcnow log_file = Inr m \<and>
           http_requests m = read_structured_logs fromtimestamp log_file (Some (now - timedelta_hours 1)) \<and>
           http_requests m =
             (case log_file of
                None \<Rightarrow> []
              | Some f \<Rightarrow> window_records fromtimestamp (now - timedelta_hours 1)
                           (takeWhile (readable_line fromtimestamp) f)) \<and>
           (\<forall>r\<in>set (http_requests m).
              \<exists>t. py_get r ''parsed_timestamp'' PNone = Inr (PDatetime t) \<and>
                  now - timedelta_hours 1 \<le> t)"
proof -
  obtain m where m: "export_current_metrics fromtimestamp now utcnow log_file = Inr m"
    and h: "http_requests m = window_logs fromtimestamp now log_file"
    using export_current_metrics_fields [OF assms, of utcnow] by blast
  have a: "http_requests m = read_structured_logs fromtimestamp log_file (Some (now - timedelta_hours 1))"
    using h by (simp only: window_logs_def)
  have b: "http_requests m =
             (case log_file of
                None \<Rightarrow> []
              | Some f \<Rightarrow> window_records fromtimestamp (now - timedelta_hours 1)
                           (takeWhile (readable_line fromtimestamp) f))"
    using h by (simp only: window_logs_window_records)
  have c: "\<forall>r\<in>set (http_requests m).
              \<exists>t. py_get r ''parsed_timestamp'' PNone = Inr (PDatetime t) \<and>
                  now - timedelta_hours 1 \<le> t"
  proof
    fix r
    assume r: "r \<in> set (http_requests m)"
    show "\<exists>t. py_get r ''parsed_timestamp'' PNone = Inr (PDatetime t) \<and>
                  now - timedelta_hours 1 \<le> t"
    proof (cases log_file)
      case None
      with r b show ?thesis by simp
    next
      case (Some f)
      with r b have "r \<in> set (window_records fromtimestamp (now - timedelta_hours 1)
                           (takeWhile (readable_line fromtimestamp) f))"
        by simp
      then show ?thesis by (rule window_records_stamped)
    qed
  qed
  from m a b c show ?thesis by (intro exI [of _ m] conjI)
qed

text \<open>
  The sample log holds five records, three requests and two login attempts. Read 800
  seconds after the sample time, the first request is more than an hour old: the list
  has the four other records, two of them business events, and \<open>total_requests\<close> is 2.
  The record left out is the request with the timestamp 1700000100.
\<close>

theorem current_metrics_http_requests_all_records_witness:
  "(\<exists>m. export_current_metrics sample_fromtimestamp (sample_now + 800000000) sample_now
          (Some sample_log) = Inr m \<and>
       total_requests m = 2 \<and> length (http_requests m) = 4 \<and>
       length (filter (is_event ''business_event'') (http_requests m)) = 2 \<and>
       map (\<lambda>r. py_get r ''parsed_timestamp'' PNone) (http_requests m) =
         [Inr (PDatetime 63835597000000000), Inr (PDatetime 63835597100000000),
          Inr (PDatetime 63835597200000000), Inr (PDatetime 63835597300000000)]) \<and>
   sample_now + 800000000 - timedelta_hours 1 = 63835597000000000 \<and>
   length (window_logs sample_fromtimestamp sample_now (Some sample_log)) = 5 \<and>
   line_time sample_fromtimestamp (log_line (sample_request 200 100) 1700000100)
     = Some 63835596900000000"
proof -
  have l: "length (window_records sample_fromtimestamp (sample_now + 800000000 - timedelta_hours 1)
             (takeWhile (readable_line sample_fromtimestamp) sample_log)) = 4"
    by code_simp
  have b: "length (filter (is_event ''business_event'')
             (window_records sample_fromtimestamp (sample_now + 800000000 - timedelta_hours 1)
               (takeWhile (readable_line sample_fromtimestamp) sample_log))) = 2"
    by code_simp
  have p: "map (\<lambda>r. py_get r ''parsed_timestamp'' PNone)
             (window_records sample_fromtimestamp (sample_now + 800000000 - timedelta_hours 1)
               (takeWhile (readable_line sample_fromtimestamp) sample_log)) =
         [Inr (PDatetime 63835597000000000), Inr (PDatetime 63835597100000000),
          Inr (PDatetime 63835597200000000), Inr (PDatetime 63835597300000000)]"
    by code_simp
  have l2: "length (filter (is_event ''http_request'')
            (window_logs sample_fromtimestamp (sample_now + 800000000) (Some sample_log))) = 2"
    by code_simp
  have s: "sample_now + 800000000 - timedelta_hours 1 = 63835597000000000"
    by code_simp
  have w: "length (window_logs sample_fromtimestamp sample_now (Some sample_log)) = 5"
    by code_simp
  have o: "line_time sample_fromtimestamp (log_line (sample_request 200 100) 1700000100)
     = Some 63835596900000000"
    by code_simp
  obtain m where m: "export_current_metrics sample_fromtimestamp (sample_now + 800000000) sample_now
          (Some sample_log) = Inr m"
    and h: "http_requests m =
             (case Some sample_log of
                None \<Rightarrow> []
              | Some f \<Rightarrow> window_records sample_fromtimestamp (sample_now + 800000000 - timedelta_hours 1)
                           (takeWhile (readable_line sample_fromtimestamp) f))"
    using current_metrics_http_requests_all_records [OF sample_later_well_typed, of sample_now]
    by blast
  from h have h': "http_requests m =
      window_records sample_fromtimestamp (sample_now + 800000000 - timedelta_hours 1)
        (takeWhile (readable_line sample_fromtimestamp) sample_log)"
    by (simp only: option.case)
  obtain m' where m': "export_current_metrics sample_fromtimestamp (sample_now + 800000000) sample_now
          (Some sample_log) = Inr m'"
    and t: "total_requests m' = length (filter (is_event ''http_request'')
            (window_logs sample_fromtimestamp (sample_now + 800000000) (Some sample_log)))"
    using export_current_metrics_fields [OF sample_later_well_typed, of sample_now] by blast
  from m m' have "m' = m" by simp
  with t l2 have t2: "total_requests m = 2" by simp
  have l4: "length (http_requests m) = 4" unfolding h' by (rule l)
  have b2: "length (filter (is_event ''business_event'') (http_requests m)) = 2"
    unfolding h' by (rule b)
  have p4: "map (\<lambda>r. py_get r ''parsed_timestamp'' PNone) (http_requests m) =
         [Inr (PDatetime 63835597000000000), Inr (PDatetime 63835597100000000),
          Inr (PDatetime 63835597200000000), Inr (PDatetime 63835597300000000)]"
    unfolding h' by (rule p)
  from m t2 l4 b2 p4 have "\<exists>m. export_current_metrics sample_fromtimestamp (sample_now + 800000000) sample_now
          (Some sample_log) = Inr m \<and>
       total_requests m = 2 \<and> length (http_requests m) = 4 \<and>
       length (filter (is_event ''business_event'') (http_requests m)) = 2 \<and>
       map (\<lambda>r. py_get r ''parsed_timestamp'' PNone) (http_requests m) =
         [Inr (PDatetime 63835597000000000), Inr (PDatetime 63835597100000000),
          Inr (PDatetime 63835597200000000), Inr (PDatetime 63835597300000000)]"
    by (intro exI [of _ m] conjI)
  with s w o show ?thesis by (intro conjI)
qed

section \<open>Calling \<^verbatim>\<open>export_current_metrics\<close> twice\<close>

text \<open>
  Claim C4 says that two calls with no write in between return identical mappings. The
  mapping holds the clock reading of the call under \<open>current_timestamp\<close>: two calls one
  second apart on the same sample log differ.
\<close>

theorem current_metrics_repeat_counterexample:
  "export_current_metrics sample_fromtimestamp sample_now sample_now (Some sample_log) \<noteq>
   export_current_metrics sample_fromtimestamp (sample_now + 1000000) (sample_now + 1000000)
     (Some sample_log)"
proof -
  obtain m where m: "export_current_metrics sample_fromtimestamp sample_now sample_now (Some sample_log) = Inr m"
    and t: "current_timestamp m = sample_now"
    using export_current_metrics_fields [OF sample_well_typed, of sample_now] by blast
  have w: "\<forall>e\<in>set (window_logs sample_fromtimestamp (sample_now + 1000000) (Some sample_log)). well_typed_entry e"
    by code_simp
  obtain m' where m': "export_current_metrics sample_fromtimestamp (sample_now + 1000000)
       (sample_now + 1000000) (Some sample_log) = Inr m'"
    and t': "current_timestamp m' = sample_now + 1000000"
    using export_current_metrics_fields [OF w, of "sample_now + 1000000"] by blast
  from t t' have "m \<noteq> m'" by auto
  with m m' show ?thesis by simp
qed

text \<open>
  Claim C4, amended. Two calls on the same log file whose trailing hours hold the same
  records return mappings that agree on every key but \<open>current_timestamp\<close>, which is the
  clock reading of each call; if one raises, the other raises the same exception.
\<close>

theorem current_metrics_repeat:
  assumes "window_logs fromtimestamp now' log_file = window_logs fromtimestamp now log_file"
  shows "export_current_metrics fromtimestamp now' utcnow' log_file =
         map_sum id (\<lambda>m. m\<lparr>current_timestamp := utcnow'\<rparr>)
           (export_current_metrics fromtimestamp now utcnow log_file)"
proof -
  have ex: "export_current_metrics fromtimestamp t u log_file =
        (let logs = window_logs fromtimestamp t log_file in
      bind_err (filter_err (has_event_type ''http_request'') logs) (\<lambda>http_reqs.
      bind_err (filter_err (has_event_type ''business_event'') logs) (\<lambda>business_events.
      bind_err (filter_err (has_event_type ''error'') logs) (\<lambda>error_events.
      bind_err (calculate_real_success_rate http_reqs) (\<lambda>sr.
      bind_err (calculate_real_avg_response_time http_reqs) (\<lambda>avg.
      bind_err (count_real_active_users logs) (\<lambda>users.
      bind_err (calculate_real_error_rate http_reqs ''5xx'') (\<lambda>e5.
      bind_err (calculate_real_error_rate http_reqs ''4xx'') (\<lambda>e4.
      bind_err (calculate_real_failed_logins_rate business_events) (\<lambda>fl.
      Inr \<lparr> total_requests = length http_reqs,
            success_rate = sr,
            avg_response_time = avg,
            active_users = users,
            error_rate_5xx = e5,
            error_rate_4xx = e4,
            failed_logins_rate = fl,
            current_timestamp = u,
            http_requests = logs,
            data_source = ''real_logs_and_prometheus'' \<rparr>))))))))))" for t u
    by (simp only: export_current_metrics_def window_logs_def)
  show ?thesis
    by (simp add: ex Let_def assms map_sum_bind_err)
qed

text \<open>The two calls on the sample log, one second apart, read the same records.\<close>

theorem current_metrics_repeat_witness:
  "export_current_metrics sample_fromtimestamp (sample_now + 1000000) (sample_now + 1000000)
     (Some sample_log) =
   map_sum id (\<lambda>m. m\<lparr>current_timestamp := sample_now + 1000000\<rparr>)
     (export_current_metrics sample_fromtimestamp sample_now sample_now (Some sample_log))"
proof -
  have "window_logs sample_fromtimestamp (sample_now + 1000000) (Some sample_log) =
        window_logs sample_fromtimestamp sample_now (Some sample_log)"
    by code_simp
  then show ?thesis by (rule current_metrics_repeat)
qed

section \<open>Hourly buckets\<close>

lemma well_timed_cases:
  assumes "well_timed_entry e"
  shows "well_typed_entry e"
    and "(py_get e ''parsed_timestamp'' PNone = Inr PNone \<and> request_hour e = None) \<or>
         (\<exists>t. py_get e ''parsed_timestamp'' PNone = Inr (PDatetime t) \<and>
              request_hour e = Some (t - t mod 3600000000))"
  using assms
  by (auto simp: well_timed_entry_def request_hour_def split: sum.splits pyval.splits)

lemma well_timed_filter_events:
  assumes "\<forall>e\<in>set logs. well_timed_entry e"
  shows "filter_err (has_event_type t) logs = Inr (filter (is_event t) logs)"
  by (rule filter_events) (use assms well_timed_cases(1) in blast)

lemma request_hour_aligned:
  assumes "request_hour r = Some h"
  shows "h mod 3600000000 = 0"
  using assms
  by (auto simp: request_hour_def split: sum.splits pyval.splits)

lemma distinct_map_insort_key:
  "distinct (map f (insort_key f x xs)) \<longleftrightarrow> f x \<notin> f ` set xs \<and> distinct (map f xs)"
  by (induction xs) (auto simp: set_insort_key)

lemma distinct_sort_key_fst:
  "distinct (map fst (sort_key fst xs)) = distinct (map fst xs)"
  by (induction xs) (simp_all add: distinct_map_insort_key)

lemma merge_totals_step:
  "merge_totals (map_of (add_request h d acc) k) (bucket k reqs) =
   merge_totals (map_of acc k) (if k = h then x # bucket k reqs else bucket k reqs)"
  if "duration_of x = d" for x
  using that
  by (auto simp: merge_totals_def add_request_def update_conv split: option.splits)

lemma requests_timeline_loop_ok:
  assumes "\<forall>e\<in>set reqs. well_timed_entry e"
  shows "\<exists>acc'. requests_timeline_loop reqs acc = Inr acc' \<and>
     (distinct (map fst acc) \<longrightarrow> distinct (map fst acc')) \<and>
     fst ` set acc' = fst ` set acc \<union> {h. \<exists>r\<in>set reqs. request_hour r = Some h} \<and>
     (\<forall>k. map_of acc' k = merge_totals (map_of acc k) (bucket k reqs))"
  using assms
proof (induction reqs arbitrary: acc)
  case Nil
  then show ?case by (simp add: bucket_def merge_totals_def)
next
  case (Cons r reqs)
  then have wt: "well_timed_entry r" and rest: "\<forall>e\<in>set reqs. well_timed_entry e"
    by simp_all
  note cases = well_timed_cases(2) [OF wt]
  show ?case
  proof (cases "request_hour r")
    case None
    with cases have ts: "py_get r ''parsed_timestamp'' PNone = Inr PNone" by auto
    obtain acc' where a: "requests_timeline_loop reqs acc = Inr acc'"
      and d: "distinct (map fst acc) \<longrightarrow> distinct (map fst acc')"
      and k: "fst ` set acc' = fst ` set acc \<union> {h. \<exists>r\<in>set reqs. request_hour r = Some h}"
      and m: "\<forall>k. map_of acc' k = merge_totals (map_of acc k) (bucket k reqs)"
      using Cons.IH [OF rest, of acc] by blast
    have "requests_timeline_loop (r # reqs) acc = Inr acc'"
      using ts a by simp
    moreover have "bucket k (r # reqs) = bucket k reqs" for k
      using None by (simp add: bucket_def)
    moreover have "{h. \<exists>x\<in>set (r # reqs). request_hour x = Some h} =
                   {h. \<exists>x\<in>set reqs. request_hour x = Some h}"
      using None by auto
    ultimately show ?thesis using d k m by simp
  next
    case (Some h)
    with cases obtain t where ts: "py_get r ''parsed_timestamp'' PNone = Inr (PDatetime t)"
      and h: "h = t - t mod 3600000000" by auto
    have dur: "duration_ms r = Inr (duration_of r)"
      by (rule well_typed_duration_of) (rule well_timed_cases(1) [OF wt])
    let ?acc1 = "add_request h (duration_of r) acc"
    obtain acc' where a: "requests_timeline_loop reqs ?acc1 = Inr acc'"
      and d: "distinct (map fst ?acc1) \<longrightarrow> distinct (map fst acc')"
      and k: "fst ` set acc' = fst ` set ?acc1 \<union> {h. \<exists>r\<in>set reqs. request_hour r = Some h}"
      and m: "\<forall>k. map_of acc' k = merge_totals (map_of ?acc1 k) (bucket k reqs)"
      using Cons.IH [OF rest, of ?acc1] by blast
    have 1: "requests_timeline_loop (r # reqs) acc = Inr acc'"
      using ts dur a h by simp
    have 2: "distinct (map fst acc) \<longrightarrow> distinct (map fst acc')"
      using d by (simp add: add_request_def distinct_update)
    have "fst ` set ?acc1 = insert h (fst ` set acc)"
      by (simp add: add_request_def dom_update)
    moreover have "{x. \<exists>y\<in>set (r # reqs). request_hour y = Some x} =
                   insert h {x. \<exists>y\<in>set reqs. request_hour y = Some x}"
      using Some by auto
    ultimately have 3: "fst ` set acc' = fst ` set acc \<union> {x. \<exists>y\<in>set (r # reqs). request_hour y = Some x}"
      using k by auto
    have 4: "map_of acc' k = merge_totals (map_of acc k) (bucket k (r # reqs))" for k
    proof -
      have "map_of acc' k = merge_totals (map_of ?acc1 k) (bucket k reqs)"
        using m by simp
      also have "\<dots> = merge_totals (map_of acc k) (if k = h then r # bucket k reqs else bucket k reqs)"
        by (rule merge_totals_step) simp
      also have "(if k = h then r # bucket k reqs else bucket k reqs) = bucket k (r # reqs)"
        using Some by (auto simp: bucket_def)
      finally show ?thesis .
    qed
    from 1 2 3 4 show ?thesis by blast
  qed
qed

lemma sample_history_well_timed: "\<forall>e\<in>set sample_history. well_timed_entry e"
  by code_simp

lemma sample_latencies_well_timed: "\<forall>e\<in>set sample_latencies. well_timed_entry e"
  by code_simp

section \<open>The request timeline\<close>

text \<open>
  Claim C5. For every list of well-typed records that \<^verbatim>\<open>export_historical_data\<close>
  passes on, whatever the window, the request timeline has one point for each hour that
  holds an \<open>http_request\<close> record and no other point: the hours are starts of hours,
  pairwise distinct and in ascending order, and each point gives the number of requests
  of its hour, which is positive, and the mean of their \<open>duration_ms\<close>. The hour of a
  record is its \<open>parsed_timestamp\<close> with minutes, seconds and microseconds set to zero.
\<close>

theorem requests_timeline_buckets:
  assumes "\<forall>e\<in>set logs. well_timed_entry e"
  shows "\<exists>tl. get_real_requests_timeline logs hours = Inr tl \<and>
     sorted (map hour tl) \<and> distinct (map hour tl) \<and>
     set (map hour tl) =
       {h. \<exists>req\<in>set (filter (is_event ''http_request'') logs). request_hour req = Some h} \<and>
     (\<forall>p\<in>set tl.
        hour p mod 3600000000 = 0 \<and>
        requests_count p = length (bucket (hour p) (filter (is_event ''http_request'') logs)) \<and>
        requests_count p > 0 \<and>
        hour_avg_response_time p =
          sum_list (map duration_of (bucket (hour p) (filter (is_event ''http_request'') logs))) /
          of_nat (requests_count p))"
proof -
  define reqs where "reqs = filter (is_event ''http_request'') logs"
  define mk where "mk = (\<lambda>(h :: datetime, count :: nat, total_duration :: rat).
                 \<lparr> hour = h,
                   requests_count = count,
                   hour_avg_response_time =
                     (if count > 0 then total_duration / of_nat count else 0) \<rparr>)"
  have f: "filter_err (has_event_type ''http_request'') logs = Inr reqs"
    unfolding reqs_def by (rule well_timed_filter_events [OF assms])
  have wr: "\<forall>e\<in>set reqs. well_timed_entry e"
    using assms by (simp add: reqs_def)
  obtain acc where a: "requests_timeline_loop reqs [] = Inr acc"
    and d: "distinct (map fst acc)"
    and k: "fst ` set acc = {h. \<exists>r\<in>set reqs. request_hour r = Some h}"
    and m: "\<forall>k. map_of acc k = merge_totals None (bucket k reqs)"
    using requests_timeline_loop_ok [OF wr, of "[]"] by auto
  define tl where "tl = map mk (sort_key fst acc)"
  have res: "get_real_requests_timeline logs hours = Inr tl"
    by (simp add: get_real_requests_timeline_def f a tl_def mk_def)
  have hours: "map hour tl = map fst (sort_key fst acc)"
    by (simp add: tl_def mk_def case_prod_beta cong: map_cong)
  have s: "sorted (map hour tl)"
    unfolding hours by (rule sorted_sort_key)
  have di: "distinct (map hour tl)"
    unfolding hours using d by (simp only: distinct_sort_key_fst)
  have se: "set (map hour tl) = {h. \<exists>r\<in>set reqs. request_hour r = Some h}"
    unfolding hours using k by simp
  have pt: "hour p mod 3600000000 = 0 \<and>
        requests_count p = length (bucket (hour p) reqs) \<and>
        requests_count p > 0 \<and>
        hour_avg_response_time p =
          sum_list (map duration_of (bucket (hour p) reqs)) / of_nat (requests_count p)"
    if "p \<in> set tl" for p
  proof -
    from that obtain h c t where mem: "(h, c, t) \<in> set acc" and p: "p = mk (h, c, t)"
      by (auto simp: tl_def)
    from mem d have "map_of acc h = Some (c, t)" by simp
    with m have mt: "merge_totals None (bucket h reqs) = Some (c, t)" by simp
    then have ne: "bucket h reqs \<noteq> []"
      by (auto simp: merge_totals_def)
    with mt have c: "c = length (bucket h reqs)" and t: "t = sum_list (map duration_of (bucket h reqs))"
      by (simp_all add: merge_totals_def)
    from ne obtain r where "r \<in> set reqs" "request_hour r = Some h"
      by (auto simp: bucket_def filter_empty_conv)
    then have al: "h mod 3600000000 = 0" using request_hour_aligned by blast
    from ne c have pos: "c > 0" by simp
    show ?thesis
      using al pos c t by (simp add: p mk_def)
  qed
  from res s di se pt show ?thesis
    unfolding reqs_def by blast
qed

text \<open>
  Three sample requests, the later hour first in the log: two points in ascending order,
  with counts 2 and 1 and means 150 and 50 ms.
\<close>

theorem requests_timeline_buckets_witness:
  "\<exists>tl. get_real_requests_timeline sample_history 24 = Inr tl \<and>
     sorted (map hour tl) \<and> distinct (map hour tl) \<and>
     map hour tl = [17733221 * 3600000000, 17733222 * 3600000000] \<and>
     map requests_count tl = [2, 1] \<and>
     map hour_avg_response_time tl = [150, 50]"
proof -
  from requests_timeline_buckets [OF sample_history_well_timed, of 24]
  obtain tl where c: "get_real_requests_timeline sample_history 24 = Inr tl \<and>
     sorted (map hour tl) \<and> distinct (map hour tl) \<and>
     set (map hour tl) =
       {h. \<exists>req\<in>set (filter (is_event ''http_request'') sample_history). request_hour req = Some h} \<and>
     (\<forall>p\<in>set tl.
        hour p mod 3600000000 = 0 \<and>
        requests_count p = length (bucket (hour p) (filter (is_event ''http_request'') sample_history)) \<and>
        requests_count p > 0 \<and>
        hour_avg_response_time p =
          sum_list (map duration_of (bucket (hour p) (filter (is_event ''http_request'') sample_history))) /
          of_nat (requests_count p))" ..
  note r = c [THEN conjunct1]
  note s = c [THEN conjunct2, THEN conjunct1]
  note d = c [THEN conjunct2, THEN conjunct2, THEN conjunct1]
  have v: "get_real_requests_timeline sample_history 24 =
     Inr [\<lparr>hour = 17733221 * 3600000000, requests_count = 2, hour_avg_response_time = 150\<rparr>,
          \<lparr>hour = 17733222 * 3600000000, requests_count = 1, hour_avg_response_time = 50\<rparr>]"
    by code_simp
  from r v have "tl =
         [\<lparr>hour = 17733221 * 3600000000, requests_count = 2, hour_avg_response_time = 150\<rparr>,
          \<lparr>hour = 17733222 * 3600000000, requests_count = 1, hour_avg_response_time = 50\<rparr>]"
    by simp
  then have "map hour tl = [17733221 * 3600000000, 17733222 * 3600000000]"
    "map requests_count tl = [2, 1]" "map hour_avg_response_time tl = [150, 50]"
    by simp_all
  with r s d show ?thesis by (intro exI [of _ tl] conjI)
qed

section \<open>Sorting and indexing the durations of an hour\<close>

lemma merge_durations_step:
  "merge_durations (map_of (append_duration h v acc) k) vs =
   merge_durations (map_of acc k) (if k = h then v # vs else vs)"
  by (auto simp: merge_durations_def append_duration_def update_conv split: option.splits)

lemma response_times_loop_ok:
  assumes "\<forall>e\<in>set reqs. well_timed_entry e"
  shows "\<exists>acc'. response_times_loop reqs acc = Inr acc' \<and>
     (distinct (map fst acc) \<longrightarrow> distinct (map fst acc')) \<and>
     fst ` set acc' = fst ` set acc \<union> {h. \<exists>r\<in>set reqs. request_hour r = Some h} \<and>
     (\<forall>k. map_of acc' k = merge_durations (map_of acc k) (map duration_value (bucket k reqs)))"
  using assms
proof (induction reqs arbitrary: acc)
  case Nil
  then show ?case by (simp add: bucket_def merge_durations_def)
next
  case (Cons r reqs)
  then have wt: "well_timed_entry r" and rest: "\<forall>e\<in>set reqs. well_timed_entry e"
    by simp_all
  note cases = well_timed_cases(2) [OF wt]
  show ?case
  proof (cases "request_hour r")
    case None
    with cases have ts: "py_get r ''parsed_timestamp'' PNone = Inr PNone" by auto
    obtain acc' where a: "response_times_loop reqs acc = Inr acc'"
      and d: "distinct (map fst acc) \<longrightarrow> distinct (map fst acc')"
      and k: "fst ` set acc' = fst ` set acc \<union> {h. \<exists>r\<in>set reqs. request_hour r = Some h}"
      and m: "\<forall>k. map_of acc' k = merge_durations (map_of acc k) (map duration_value (bucket k reqs))"
      using Cons.IH [OF rest, of acc] by blast
    have "response_times_loop (r # reqs) acc = Inr acc'"
      using ts a by simp
    moreover have "bucket k (r # reqs) = bucket k reqs" for k
      using None by (simp add: bucket_def)
    moreover have "{h. \<exists>x\<in>set (r # reqs). request_hour x = Some h} =
                   {h. \<exists>x\<in>set reqs. request_hour x = Some h}"
      using None by auto
    ultimately show ?thesis using d k m by simp
  next
    case (Some h)
    with cases obtain t where ts: "py_get r ''parsed_timestamp'' PNone = Inr (PDatetime t)"
      and h: "h = t - t mod 3600000000" by auto
    have dur: "bind_err (get_extra r) (\<lambda>x. py_get x ''duration_ms'' (PNum 0)) = Inr (duration_value r)"
      by (rule well_typed_duration_value) (rule well_timed_cases(1) [OF wt])
    let ?acc1 = "append_duration h (duration_value r) acc"
    obtain acc' where a: "response_times_loop reqs ?acc1 = Inr acc'"
      and d: "distinct (map fst ?acc1) \<longrightarrow> distinct (map fst acc')"
      and k: "fst ` set acc' = fst ` set ?acc1 \<union> {h. \<exists>r\<in>set reqs. request_hour r = Some h}"
      and m: "\<forall>k. map_of acc' k = merge_durations (map_of ?acc1 k) (map duration_value (bucket k reqs))"
      using Cons.IH [OF rest, of ?acc1] by blast
    have "bind_err (get_extra r) (\<lambda>e. bind_err (py_get e ''duration_ms'' (PNum 0)) f) =
          f (duration_value r)" for f :: "pyval \<Rightarrow> error + hourly_durations"
      using dur by (cases "get_extra r") (simp_all add: bind_err_def)
    then have 1: "response_times_loop (r # reqs) acc = Inr acc'"
      using ts a h by simp
    have 2: "distinct (map fst acc) \<longrightarrow> distinct (map fst acc')"
      using d by (simp add: append_duration_def distinct_update)
    have "fst ` set ?acc1 = insert h (fst ` set acc)"
      by (simp add: append_duration_def dom_update)
    moreover have "{x. \<exists>y\<in>set (r # reqs). request_hour y = Some x} =
                   insert h {x. \<exists>y\<in>set reqs. request_hour y = Some x}"
      using Some by auto
    ultimately have 3: "fst ` set acc' = fst ` set acc \<union> {x. \<exists>y\<in>set (r # reqs). request_hour y = Some x}"
      using k by auto
    have 4: "map_of acc' k = merge_durations (map_of acc k) (map duration_value (bucket k (r # reqs)))" for k
    proof -
      have "map_of acc' k = merge_durations (map_of ?acc1 k) (map duration_value (bucket k reqs))"
        using m by simp
      also have "\<dots> = merge_durations (map_of acc k)
          (if k = h then duration_value r # map duration_value (bucket k reqs)
           else map duration_value (bucket k reqs))"
        by (rule merge_durations_step)
      also have "(if k = h then duration_value r # map duration_value (bucket k reqs)
           else map duration_value (bucket k reqs)) = map duration_value (bucket k (r # reqs))"
        using Some by (auto simp: bucket_def)
      finally show ?thesis .
    qed
    from 1 2 3 4 show ?thesis by blast
  qed
qed

lemma py_sort_numeric:
  assumes "\<forall>v\<in>set ds. \<exists>d. py_num v = Inr d"
  shows "py_sort ds = Inr (sort_key py_number ds)"
proof (cases "length ds \<le> 1")
  case True
  then have "ds = [] \<or> (\<exists>x. ds = [x])"
    by (cases ds) (auto simp: length_Suc_conv)
  then show ?thesis by (auto simp: py_sort_def)
next
  case False
  obtain keys where "map_err py_num ds = Inr keys"
    using map_err_total [of ds py_num] assms by blast
  with False show ?thesis by (simp add: py_sort_def)
qed

lemma percentile_idx_ratio:
  "percentile_idx n (of_nat a / of_nat b) = n * a div b"
proof -
  have "(of_nat n :: rat) * (of_nat a / of_nat b) = of_nat (n * a) / of_nat b"
    by simp
  then have "\<lfloor>(of_nat n :: rat) * (of_nat a / of_nat b)\<rfloor> = int (n * a div b)"
    by (simp only: floor_divide_of_nat_eq)
  then show ?thesis by (simp add: percentile_idx_def)
qed

lemma percentile_idx_values:
  "percentile_idx n (1 / 2) = n div 2"
  "percentile_idx n (95 / 100) = 95 * n div 100"
  "percentile_idx n (99 / 100) = 99 * n div 100"
  using percentile_idx_ratio [of n 1 2] percentile_idx_ratio [of n 95 100]
    percentile_idx_ratio [of n 99 100]
  by (simp_all add: mult.commute)

lemma value_at_in_range: "idx < length ds \<Longrightarrow> value_at ds idx = ds ! idx"
  by (simp add: value_at_def)

lemma response_times_points_ok:
  assumes "\<forall>(h, ds)\<in>set xs. ds \<noteq> [] \<and> (\<forall>v\<in>set ds. \<exists>d. py_num v = Inr d)"
  shows "response_times_points xs =
         Inr (map (\<lambda>(h, ds).
               \<lparr> latency_hour = h,
                 p50 = sort_key py_number ds ! (length ds div 2),
                 p95 = sort_key py_number ds ! (95 * length ds div 100),
                 p99 = sort_key py_number ds ! (99 * length ds div 100) \<rparr>) xs)"
  using assms
proof (induction xs)
  case Nil
  then show ?case by simp
next
  case (Cons x xs)
  obtain h ds where x: "x = (h, ds)" by (cases x)
  with Cons.prems have ne: "ds \<noteq> []" and num: "\<forall>v\<in>set ds. \<exists>d. py_num v = Inr d"
    by auto
  have s: "py_sort ds = Inr (sort_key py_number ds)"
    by (rule py_sort_numeric [OF num])
  from ne have n: "0 < length ds" by simp
  then have i: "length ds div 2 < length ds" "95 * length ds div 100 < length ds"
    "99 * length ds div 100 < length ds"
    by arith+
  have ih: "response_times_points xs =
         Inr (map (\<lambda>(h, ds).
               \<lparr> latency_hour = h,
                 p50 = sort_key py_number ds ! (length ds div 2),
                 p95 = sort_key py_number ds ! (95 * length ds div 100),
                 p99 = sort_key py_number ds ! (99 * length ds div 100) \<rparr>) xs)"
    using Cons by simp
  have l: "length (sort_key py_number ds) = length ds" by simp
  have v50: "value_at (sort_key py_number ds) (percentile_idx (length (sort_key py_number ds)) (1 / 2))
             = sort_key py_number ds ! (length ds div 2)"
    using i(1) by (simp only: l percentile_idx_values value_at_def if_True)
  have v95: "value_at (sort_key py_number ds) (percentile_idx (length (sort_key py_number ds)) (95 / 100))
             = sort_key py_number ds ! (95 * length ds div 100)"
    using i(2) by (simp only: l percentile_idx_values value_at_def if_True)
  have v99: "value_at (sort_key py_number ds) (percentile_idx (length (sort_key py_number ds)) (99 / 100))
             = sort_key py_number ds ! (99 * length ds div 100)"
    using i(3) by (simp only: l percentile_idx_values value_at_def if_True)
  show ?case
    using ne
    by (simp only: x response_times_points.simps if_True s bind_err_Inr ih v50 v95 v99
        list.map prod.case not_False_eq_True simp_thms)
qed

section \<open>The latency timeline\<close>

text \<open>
  Claim C2. For every hour bucket of the latency timeline, with its \<open>n\<close> durations
  sorted ascending, \<open>p50\<close>, \<open>p95\<close> and \<open>p99\<close> are the values at the indices
  \<open>n div 2\<close>, \<open>95 n div 100\<close> and \<open>99 n div 100\<close>, with no interpolation; the
  indexing yields 0 where the index is not below the length of the list. For the
  durations 10, 20, 30, 40, 50 in one bucket, \<open>p50 = 30\<close> and \<open>p95 = 50\<close>.
\<close>

theorem response_times_nearest_rank:
  assumes "\<forall>e\<in>set logs. well_timed_entry e"
  shows "(\<exists>tl. get_real_response_times_timeline logs hours = Inr tl \<and>
     sorted (map latency_hour tl) \<and> distinct (map latency_hour tl) \<and>
     set (map latency_hour tl) =
       {h. \<exists>req\<in>set (filter (is_event ''http_request'') logs). request_hour req = Some h} \<and>
     (\<forall>p\<in>set tl.
        let ds = sorted_durations (latency_hour p) (filter (is_event ''http_request'') logs);
            n = length ds
        in 0 < n \<and> sorted (map py_number ds) \<and>
           p50 p = ds ! (n div 2) \<and>
           p95 p = ds ! (95 * n div 100) \<and>
           p99 p = ds ! (99 * n div 100))) \<and>
    (\<forall>ds idx. length ds \<le> idx \<longrightarrow> value_at ds idx = PNum 0)"
proof
  define reqs where "reqs = filter (is_event ''http_request'') logs"
  define mk where "mk = (\<lambda>(h :: datetime, ds :: pyval list).
               \<lparr> latency_hour = h,
                 p50 = sort_key py_number ds ! (length ds div 2),
                 p95 = sort_key py_number ds ! (95 * length ds div 100),
                 p99 = sort_key py_number ds ! (99 * length ds div 100) \<rparr>)"
  have f: "filter_err (has_event_type ''http_request'') logs = Inr reqs"
    unfolding reqs_def by (rule well_timed_filter_events [OF assms])
  have wr: "\<forall>e\<in>set reqs. well_timed_entry e"
    using assms by (simp add: reqs_def)
  obtain acc where a: "response_times_loop reqs [] = Inr acc"
    and d: "distinct (map fst acc)"
    and k: "fst ` set acc = {h. \<exists>r\<in>set reqs. request_hour r = Some h}"
    and m: "\<forall>k. map_of acc k = merge_durations None (map duration_value (bucket k reqs))"
    using response_times_loop_ok [OF wr, of "[]"] by auto
  have entry: "ds = map duration_value (bucket h reqs) \<and> bucket h reqs \<noteq> []"
    if "(h, ds) \<in> set acc" for h ds
  proof -
    from that d have "map_of acc h = Some ds" by simp
    with m have "merge_durations None (map duration_value (bucket h reqs)) = Some ds" by simp
    then show ?thesis by (auto simp: merge_durations_def split: if_splits)
  qed
  have numeric: "\<exists>x. py_num v = Inr x" if "(h, ds) \<in> set acc" "v \<in> set ds" for h ds v
  proof -
    from entry [OF that(1)] that(2) obtain r where "r \<in> set reqs" "v = duration_value r"
      by (auto simp: bucket_def)
    with wr show ?thesis
      using well_typed_duration_value(2) well_timed_cases(1) by blast
  qed
  have ok: "\<forall>(h, ds)\<in>set (sort_key fst acc). ds \<noteq> [] \<and> (\<forall>v\<in>set ds. \<exists>d. py_num v = Inr d)"
    using entry numeric by fastforce
  define tl where "tl = map mk (sort_key fst acc)"
  have pts: "response_times_points (sort_key fst acc) = Inr tl"
    unfolding tl_def mk_def by (rule response_times_points_ok [OF ok])
  have res: "get_real_response_times_timeline logs hours = Inr tl"
    by (simp add: get_real_response_times_timeline_def f a pts)
  have hours: "map latency_hour tl = map fst (sort_key fst acc)"
    by (simp add: tl_def mk_def case_prod_beta cong: map_cong)
  have s: "sorted (map latency_hour tl)"
    unfolding hours by (rule sorted_sort_key)
  have di: "distinct (map latency_hour tl)"
    unfolding hours using d by (simp only: distinct_sort_key_fst)
  have se: "set (map latency_hour tl) = {h. \<exists>r\<in>set reqs. request_hour r = Some h}"
    unfolding hours using k by simp
  have pt: "let ds = sorted_durations (latency_hour p) reqs; n = length ds
        in 0 < n \<and> sorted (map py_number ds) \<and>
           p50 p = ds ! (n div 2) \<and>
           p95 p = ds ! (95 * n div 100) \<and>
           p99 p = ds ! (99 * n div 100)"
    if "p \<in> set tl" for p
  proof -
    from that obtain h ds where mem: "(h, ds) \<in> set acc" and p: "p = mk (h, ds)"
      by (auto simp: tl_def)
    from entry [OF mem] have ds: "ds = map duration_value (bucket h reqs)" and ne: "ds \<noteq> []"
      by auto
    have sd: "sorted_durations h reqs = sort_key py_number ds"
      by (simp only: sorted_durations_def ds)
    have l: "length (sort_key py_number ds) = length ds" by simp
    have "0 < length ds" using ne by simp
    moreover have "sorted (map py_number (sort_key py_number ds))"
      by (rule sorted_sort_key)
    moreover have "latency_hour p = h" "p50 p = sort_key py_number ds ! (length ds div 2)"
      "p95 p = sort_key py_number ds ! (95 * length ds div 100)"
      "p99 p = sort_key py_number ds ! (99 * length ds div 100)"
      by (simp_all only: p mk_def prod.case latency_point.select_convs)
    ultimately show ?thesis
      by (simp only: Let_def sd l simp_thms)
  qed
  from res s di se pt
  show "\<exists>tl. get_real_response_times_timeline logs hours = Inr tl \<and>
     sorted (map latency_hour tl) \<and> distinct (map latency_hour tl) \<and>
     set (map latency_hour tl) =
       {h. \<exists>req\<in>set (filter (is_event ''http_request'') logs). request_hour req = Some h} \<and>
     (\<forall>p\<in>set tl.
        let ds = sorted_durations (latency_hour p) (filter (is_event ''http_request'') logs);
            n = length ds
        in 0 < n \<and> sorted (map py_number ds) \<and>
           p50 p = ds ! (n div 2) \<and>
           p95 p = ds ! (95 * n div 100) \<and>
           p99 p = ds ! (99 * n div 100))"
    unfolding reqs_def by blast
next
  show "\<forall>ds idx. length ds \<le> idx \<longrightarrow> value_at ds idx = PNum 0"
    by (simp add: value_at_def)
qed

text \<open>
  Five sample requests in one hour with durations 50, 10, 40, 20, 30:
  \<open>p50 = 30\<close>, \<open>p95 = 50\<close>, \<open>p99 = 50\<close>; an index of 2 into a list of two
  values gives 0.
\<close>

theorem response_times_nearest_rank_witness:
  "(\<exists>tl. get_real_response_times_timeline sample_latencies 24 = Inr tl \<and>
      sorted (map latency_hour tl) \<and>
      map p50 tl = [PNum 30] \<and> map p95 tl = [PNum 50] \<and> map p99 tl = [PNum 50]) \<and>
   value_at [PNum 10, PNum 20] 2 = PNum 0"
proof -
  note t = response_times_nearest_rank [OF sample_latencies_well_timed, of 24]
  from t [THEN conjunct1]
  obtain tl where c: "get_real_response_times_timeline sample_latencies 24 = Inr tl \<and>
     sorted (map latency_hour tl) \<and> distinct (map latency_hour tl) \<and>
     set (map latency_hour tl) =
       {h. \<exists>req\<in>set (filter (is_event ''http_request'') sample_latencies). request_hour req = Some h} \<and>
     (\<forall>p\<in>set tl.
        let ds = sorted_durations (latency_hour p) (filter (is_event ''http_request'') sample_latencies);
            n = length ds
        in 0 < n \<and> sorted (map py_number ds) \<and>
           p50 p = ds ! (n div 2) \<and>
           p95 p = ds ! (95 * n div 100) \<and>
           p99 p = ds ! (99 * n div 100))" ..
  note r = c [THEN conjunct1]
  note s = c [THEN conjunct2, THEN conjunct1]
  have v: "get_real_response_times_timeline sample_latencies 24 =
     Inr [\<lparr>latency_hour = 17733221 * 3600000000, p50 = PNum 30, p95 = PNum 50, p99 = PNum 50\<rparr>]"
    by code_simp
  from r v have "tl =
     [\<lparr>latency_hour = 17733221 * 3600000000, p50 = PNum 30, p95 = PNum 50, p99 = PNum 50\<rparr>]"
    by simp
  then have "map p50 tl = [PNum 30]" "map p95 tl = [PNum 50]" "map p99 tl = [PNum 50]"
    by simp_all
  with r s have 1: "\<exists>tl. get_real_response_times_timeline sample_latencies 24 = Inr tl \<and>
      sorted (map latency_hour tl) \<and>
      map p50 tl = [PNum 30] \<and> map p95 tl = [PNum 50] \<and> map p99 tl = [PNum 50]"
    by (intro exI [of _ tl] conjI)
  from t have "\<forall>ds idx. length ds \<le> idx \<longrightarrow> value_at ds idx = PNum 0"
    by (rule conjunct2)
  then have 2: "value_at [PNum 10, PNum 20] 2 = PNum 0"
    by simp
  from 1 2 show ?thesis by (rule conjI)
qed

section \<open>Collecting and rendering the lines of the exposition\<close>





section \<open>The layout of the exposition\<close>



section \<open>Observing a negative amount\<close>

lemma bucket_index_negative:
  assumes "amount < 0" and "upper_bounds \<noteq> []" and "0 \<le> hd upper_bounds"
  shows "bucket_index upper_bounds amount = 0"
  using assms by (cases upper_bounds) auto

lemma observe_negative:
  assumes "amount < 0" and "upper_bounds \<noteq> []" and "0 \<le> hd upper_bounds"
    and "bucket_counts h \<noteq> []"
  shows "hist_sum (observe upper_bounds h amount) = hist_sum h + amount"
    and "bucket_counts (observe upper_bounds h amount) =
           (bucket_counts h)[0 := bucket_counts h ! 0 + 1]"
    and "hist_count (observe upper_bounds h amount) = hist_count h + 1"
proof -
  have i: "bucket_index upper_bounds amount = 0"
    by (rule bucket_index_negative) (rule assms)+
  show "hist_sum (observe upper_bounds h amount) = hist_sum h + amount"
    by (simp add: observe_def Let_def)
  show "bucket_counts (observe upper_bounds h amount) =
           (bucket_counts h)[0 := bucket_counts h ! 0 + 1]"
    by (simp add: observe_def i)
  show "hist_count (observe upper_bounds h amount) = hist_count h + 1"
    using assms(4) by (cases "bucket_counts h") (simp_all add: observe_def i hist_count_def)
qed

section \<open>Negative observations\<close>

text \<open>
  Claim C3 says that a histogram rejects a negative value and keeps its state.
  \<^verbatim>\<open>record_http_request\<close> passes the duration to \<^verbatim>\<open>observe\<close> with no check of
  its own, and the library's \<^verbatim>\<open>observe\<close> has none: after a request of \<open>-1\<close> second
  on a new collector the histogram series is not what it was.
\<close>

theorem negative_observation_counterexample:
  "http_request_duration
     (record_http_request new_metrics_collector ''GET'' ''/books'' 200 (- 1)) (''GET'', ''/books'')
   \<noteq> http_request_duration new_metrics_collector (''GET'', ''/books'')"
  by (simp add: record_http_request_def new_metrics_collector_def observe_def new_histogram_def
      http_buckets_def Let_def)

text \<open>
  Claim C3, amended. For every histogram series written by \<^verbatim>\<open>record_http_request\<close>
  or \<^verbatim>\<open>record_db_query\<close> and every negative value \<open>v\<close>, the observation is accepted:
  the running sum becomes the prior sum plus \<open>v\<close>, the count of the lowest bucket and
  the count of observations grow by one, and the other buckets keep their counts.
\<close>

theorem negative_observation_recorded:
  assumes "v < 0"
    and "bucket_counts (http_request_duration self (method, endpoint)) \<noteq> []"
    and "bucket_counts (db_query_duration self (table, operation)) \<noteq> []"
  shows "(let h = http_request_duration self (method, endpoint);
              h' = http_request_duration (record_http_request self method endpoint status v)
                     (method, endpoint)
          in hist_sum h' = hist_sum h + v \<and>
             bucket_counts h' = (bucket_counts h)[0 := bucket_counts h ! 0 + 1] \<and>
             hist_count h' = hist_count h + 1) \<and>
         (let h = db_query_duration self (table, operation);
              h' = db_query_duration (record_db_query self table operation v) (table, operation)
          in hist_sum h' = hist_sum h + v \<and>
             bucket_counts h' = (bucket_counts h)[0 := bucket_counts h ! 0 + 1] \<and>
             hist_count h' = hist_count h + 1)"
proof -
  have hb: "http_buckets \<noteq> []" "0 \<le> hd http_buckets"
    by (simp_all add: http_buckets_def)
  have db: "db_buckets \<noteq> []" "0 \<le> hd db_buckets"
    by (simp_all add: db_buckets_def)
  have 1: "http_request_duration (record_http_request self method endpoint status v) (method, endpoint)
           = observe http_buckets (http_request_duration self (method, endpoint)) v"
    by (simp add: record_http_request_def Let_def)
  have 2: "db_query_duration (record_db_query self table operation v) (table, operation)
           = observe db_buckets (db_query_duration self (table, operation)) v"
    by (simp add: record_db_query_def Let_def)
  show ?thesis
    unfolding Let_def 1 2
    using observe_negative [OF assms(1) hb assms(2)] observe_negative [OF assms(1) db assms(3)]
    by (intro conjI)
qed

text \<open>
  On a new collector, a request and a query of \<open>-1\<close> second leave the sums at \<open>-1\<close>
  and the counts at 1.
\<close>

theorem negative_observation_recorded_witness:
  "(let h = http_request_duration new_metrics_collector (''GET'', ''/books'');
        h' = http_request_duration (record_http_request new_metrics_collector ''GET'' ''/books'' 200 (- 1))
               (''GET'', ''/books'')
    in hist_sum h' = - 1 \<and> hist_count h = 0 \<and> hist_count h' = 1) \<and>
   (let h = db_query_duration new_metrics_collector (''books'', ''select'');
        h' = db_query_duration (record_db_query new_metrics_collector ''books'' ''select'' (- 1))
               (''books'', ''select'')
    in hist_sum h' = - 1 \<and> hist_count h = 0 \<and> hist_count h' = 1)"
proof -
  have a: "bucket_counts (http_request_duration new_metrics_collector (''GET'', ''/books'')) \<noteq> []"
    by (simp add: new_metrics_collector_def new_histogram_def)
  have b: "bucket_counts (db_query_duration new_metrics_collector (''books'', ''select'')) \<noteq> []"
    by (simp add: new_metrics_collector_def new_histogram_def)
  have z: "hist_sum (http_request_duration new_metrics_collector (''GET'', ''/books'')) = 0"
    "hist_count (http_request_duration new_metrics_collector (''GET'', ''/books'')) = 0"
    "hist_sum (db_query_duration new_metrics_collector (''books'', ''select'')) = 0"
    "hist_count (db_query_duration new_metrics_collector (''books'', ''select'')) = 0"
    by (simp_all add: new_metrics_collector_def new_histogram_def hist_count_def)
  have neg: "(- 1 :: rat) < 0" by simp
  show ?thesis
    using negative_observation_recorded [OF neg a b, of 200]
    by (simp add: Let_def z)
qed

section \<open>Severity of a logged request\<close>

text \<open>
  Claim C8. For every logged request, \<^verbatim>\<open>log_request\<close> classifies the severity as
  error-level when the status is at least 500, as warning-level when the status is in
  400..499 or the duration exceeds the configured slow-request threshold, and as
  info-level otherwise; the cases are tried in this order.
\<close>

theorem log_request_severity:
  "log_request_level status duration =
     (if status \<ge> 500 then ERROR
      else if (400 \<le> status \<and> status \<le> 499) \<or> duration > SLOW_REQUEST_THRESHOLD then WARNING
      else INFO)"
  by (simp add: log_request_level_def)

end
